theory Spec2Isabelle
  imports Complex_Main "HOL-Library.AList"
begin

section \<open>Errors\<close>

text \<open>
  The error values that the handlers of \<^verbatim>\<open>src/main.go\<close> (package \<^verbatim>\<open>api\<close>) and the
  connection manager of \<^verbatim>\<open>src/db/mongo.go\<close> distinguish or pass on. An error the Go code
  wraps with \<^verbatim>\<open>fmt.Errorf("...: %v", err)\<close> is kept as \<open>Wrapped prefix err\<close>.
\<close>

datatype error =
    ErrInvalidHex
  | InvalidByteError char
  | ErrLength
  | ErrNoDocuments
  | ErrClientDisconnected
  | ErrDeadline
  | ErrDial
  | ErrDuplicateKey
  | ErrImmutableField
  | ErrModifierNotDocument
  | ErrNullByteKey
  | ErrEmptyFieldName string
  | ErrPositional string
  | ErrNoArrayFilter string
  | ErrConflictingPaths
  | ErrPathNotViable string
  | ErrDollarPrefixedField string
  | ErrParseTime
  | ErrDecode
  | Wrapped string error

section \<open>Object identifiers\<close>

text \<open>
  \<^verbatim>\<open>primitive.ObjectID\<close> is \<^verbatim>\<open>[12]byte\<close>; a byte is a natural number below 256.
  \<^verbatim>\<open>encoding/hex\<close> decodes two hexadecimal digits (either case) into one byte and
  encodes a byte as two lower-case digits.
\<close>

type_synonym ObjectID = "nat list"

definition fromHexChar :: "char \<Rightarrow> nat option" where
  "fromHexChar c =
     (let n = (of_char c :: nat) in
      if 48 \<le> n \<and> n \<le> 57 then Some (n - 48)
      else if 97 \<le> n \<and> n \<le> 102 then Some (n - 97 + 10)
      else if 65 \<le> n \<and> n \<le> 70 then Some (n - 65 + 10)
      else None)"

fun hex_Decode :: "string \<Rightarrow> error + nat list" where
  "hex_Decode [] = Inr []"
| "hex_Decode [p] =
     (case fromHexChar p of None \<Rightarrow> Inl (InvalidByteError p) | Some _ \<Rightarrow> Inl ErrLength)"
| "hex_Decode (p # q # src) =
     (case fromHexChar p of
        None \<Rightarrow> Inl (InvalidByteError p)
      | Some a \<Rightarrow>
          (case fromHexChar q of
             None \<Rightarrow> Inl (InvalidByteError q)
           | Some b \<Rightarrow>
               (case hex_Decode src of
                  Inl e \<Rightarrow> Inl e
                | Inr dst \<Rightarrow> Inr ((a * 16 + b) # dst))))"

definition hextable :: string where
  "hextable = ''0123456789abcdef''"

fun hex_Encode :: "nat list \<Rightarrow> string" where
  "hex_Encode [] = []"
| "hex_Encode (v # src) = hextable ! (v div 16) # hextable ! (v mod 16) # hex_Encode src"

definition ObjectIDFromHex :: "string \<Rightarrow> error + ObjectID" where
  "ObjectIDFromHex s =
     (if length s \<noteq> 24 then Inl ErrInvalidHex
      else case hex_Decode s of Inl err \<Rightarrow> Inl err | Inr oid \<Rightarrow> Inr oid)"

definition Hex :: "ObjectID \<Rightarrow> string" where
  "Hex oid = hex_Encode oid"

definition NilObjectID :: ObjectID where
  "NilObjectID = replicate 12 0"

text \<open>What the specification calls a valid hex identifier: 24 hexadecimal digits.\<close>

definition is_hex_digit :: "char \<Rightarrow> bool" where
  "is_hex_digit c = (c \<in> set ''0123456789abcdefABCDEF'')"

definition valid_hex_id :: "string \<Rightarrow> bool" where
  "valid_hex_id s = (length s = 24 \<and> list_all is_hex_digit s)"

text \<open>An identifier as the driver holds it: twelve bytes.\<close>

definition is_oid :: "ObjectID \<Rightarrow> bool" where
  "is_oid oid = (length oid = 12 \<and> list_all (\<lambda>b. b < 256) oid)"

section \<open>Go integers\<close>

text \<open>
  Go's \<^verbatim>\<open>/\<close> and \<^verbatim>\<open>%\<close> on integers truncate towards zero; HOL's \<open>div\<close> and
  \<open>mod\<close> round down. \<open>wrap64\<close> is the value an \<^verbatim>\<open>int64\<close> computation keeps.
\<close>

definition quo :: "int \<Rightarrow> int \<Rightarrow> int" where
  "quo a b = sgn a * sgn b * (\<bar>a\<bar> div \<bar>b\<bar>)"

definition rem :: "int \<Rightarrow> int \<Rightarrow> int" where
  "rem a b = a - b * quo a b"

definition wrap64 :: "int \<Rightarrow> int" where
  "wrap64 x = (x + 2 ^ 63) mod 2 ^ 64 - 2 ^ 63"

definition fitsIn32Bits :: "int \<Rightarrow> bool" where
  "fitsIn32Bits i = (- (2 ^ 31) \<le> i \<and> i \<le> 2 ^ 31 - 1)"

definition fitsIn64Bits :: "int \<Rightarrow> bool" where
  "fitsIn64Bits i = (- (2 ^ 63) \<le> i \<and> i \<le> 2 ^ 63 - 1)"

section \<open>Time\<close>

text \<open>
  A \<^verbatim>\<open>time.Time\<close> is an instant (\<open>unix\<close> seconds since 1970-01-01T00:00:00Z and
  \<open>nsec\<close> nanoseconds within the second) together with the offset of its location
  (\<open>zone\<close>, seconds east of UTC), which only \<^verbatim>\<open>Format\<close> reads.
  \<^verbatim>\<open>primitive.DateTime\<close> is an \<^verbatim>\<open>int64\<close> of milliseconds since the Unix epoch.
\<close>

record time =
  unix :: int
  nsec :: int
  zone :: int

definition UTC :: "time \<Rightarrow> time" where
  "UTC t = t\<lparr>zone := 0\<rparr>"

definition unixToInternal :: int where
  "unixToInternal = 62135596800"

definition IsZero :: "time \<Rightarrow> bool" where
  "IsZero t = (unix t + unixToInternal = 0 \<and> nsec t = 0)"

text \<open>\<^verbatim>\<open>time.Unix(sec, nsec)\<close>, with the location given by the offset \<open>loc\<close>.\<close>

definition time_Unix :: "int \<Rightarrow> int \<Rightarrow> int \<Rightarrow> time" where
  "time_Unix loc sec ns =
     (if ns < 0 \<or> ns \<ge> 1000000000 then
        (let n = quo ns 1000000000;
             sec1 = sec + n;
             ns1 = ns - n * 1000000000
         in if ns1 < 0 then \<lparr>unix = sec1 - 1, nsec = ns1 + 1000000000, zone = loc\<rparr>
            else \<lparr>unix = sec1, nsec = ns1, zone = loc\<rparr>)
      else \<lparr>unix = sec, nsec = ns, zone = loc\<rparr>)"

text \<open>\<^verbatim>\<open>func (d DateTime) Time() time.Time\<close> and \<^verbatim>\<open>primitive.NewDateTimeFromTime\<close>.\<close>

definition DateTime_Time :: "int \<Rightarrow> int \<Rightarrow> time" where
  "DateTime_Time loc d = time_Unix loc (quo d 1000) (rem d 1000 * 1000000)"

definition NewDateTimeFromTime :: "time \<Rightarrow> int" where
  "NewDateTimeFromTime t = wrap64 (wrap64 (unix t * 1000) + quo (nsec t) 1000000)"

subsection \<open>The calendar\<close>

definition isLeap :: "int \<Rightarrow> bool" where
  "isLeap year = (year mod 4 = 0 \<and> (year mod 100 \<noteq> 0 \<or> year mod 400 = 0))"

definition daysBefore :: "int list" where
  "daysBefore = [0, 31, 59, 90, 120, 151, 181, 212, 243, 273, 304, 334, 365]"

definition daysIn :: "int \<Rightarrow> int \<Rightarrow> int" where
  "daysIn m year =
     (if m = 2 \<and> isLeap year then 29
      else daysBefore ! nat m - daysBefore ! nat (m - 1))"

text \<open>
  \<open>absYear d\<close> splits \<open>d\<close>, a number of days since 0001-01-01, into the year and the day
  within the year, by cycles of 400, 100, 4 and 1 years as \<^verbatim>\<open>absDate\<close> does.
\<close>

definition absYear :: "int \<Rightarrow> int \<times> int" where
  "absYear d =
     (let n400 = d div 146097;
          d1 = d - 146097 * n400;
          c = d1 div 36524;
          n100 = c - c div 4;
          d2 = d1 - 36524 * n100;
          n4 = d2 div 1461;
          d3 = d2 - 1461 * n4;
          k = d3 div 365;
          n1 = k - k div 4;
          yday = d3 - 365 * n1
      in (400 * n400 + 100 * n100 + 4 * n4 + n1 + 1, yday))"

definition monthDay :: "int \<Rightarrow> int \<Rightarrow> int \<times> int" where
  "monthDay year yday =
     (if isLeap year \<and> yday = 31 + 29 - 1 then (2, 29)
      else
        (let day = (if isLeap year \<and> yday > 31 + 29 - 1 then yday - 1 else yday);
             m = day div 31;
             end = daysBefore ! nat (m + 1)
         in if day \<ge> end then (m + 2, day - end + 1)
            else (m + 1, day - daysBefore ! nat m + 1)))"

text \<open>The fields of the wall clock that \<open>t\<close> shows in its location.\<close>

definition absSeconds :: "time \<Rightarrow> int" where
  "absSeconds t = unix t + zone t + unixToInternal"

definition Year :: "time \<Rightarrow> int" where
  "Year t = fst (absYear (absSeconds t div 86400))"

definition Month :: "time \<Rightarrow> int" where
  "Month t = (case absYear (absSeconds t div 86400) of (y, yd) \<Rightarrow> fst (monthDay y yd))"

definition Day :: "time \<Rightarrow> int" where
  "Day t = (case absYear (absSeconds t div 86400) of (y, yd) \<Rightarrow> snd (monthDay y yd))"

definition Hour :: "time \<Rightarrow> int" where
  "Hour t = absSeconds t mod 86400 div 3600"

definition Minute :: "time \<Rightarrow> int" where
  "Minute t = absSeconds t mod 3600 div 60"

definition Second :: "time \<Rightarrow> int" where
  "Second t = absSeconds t mod 60"

subsection \<open>Formatting with the layout RFC3339\<close>

definition digit :: "int \<Rightarrow> char" where
  "digit n = char_of (48 + n)"

fun itoa :: "nat \<Rightarrow> string" where
  "itoa n = (if n < 10 then [digit (int n)] else itoa (n div 10) @ [digit (int (n mod 10))])"

declare itoa.simps [simp del]

definition appendInt :: "int \<Rightarrow> nat \<Rightarrow> string" where
  "appendInt x width =
     (let ds = itoa (nat \<bar>x\<bar>)
      in (if x < 0 then ''-'' else []) @ replicate (width - length ds) (CHR ''0'') @ ds)"

definition formatZone :: "int \<Rightarrow> string" where
  "formatZone offset =
     (if offset = 0 then ''Z''
      else
        (let z = quo offset 60;
             a = \<bar>z\<bar>
         in (if z < 0 then ''-'' else ''+'') @ appendInt (a div 60) 2 @ '':''
            @ appendInt (a mod 60) 2))"

definition Format_RFC3339 :: "time \<Rightarrow> string" where
  "Format_RFC3339 t =
     appendInt (Year t) 4 @ ''-'' @ appendInt (Month t) 2 @ ''-'' @ appendInt (Day t) 2
     @ ''T'' @ appendInt (Hour t) 2 @ '':'' @ appendInt (Minute t) 2 @ '':''
     @ appendInt (Second t) 2 @ formatZone (zone t)"

subsection \<open>Parsing with the layout RFC3339\<close>

text \<open>
  \<^verbatim>\<open>time.Parse(time.RFC3339, s)\<close>, as the parser for that layout reads a string: four
  digits of year, two of month, day, hour, minute and second with their separators, an
  optional fraction of a second, and \<^verbatim>\<open>Z\<close> or a numeric offset. A string outside this
  grammar is an error here.
\<close>

definition isDigit :: "char \<Rightarrow> bool" where
  "isDigit c = (48 \<le> (of_char c :: int) \<and> (of_char c :: int) \<le> 57)"

definition atoi :: "string \<Rightarrow> int" where
  "atoi s = foldl (\<lambda>x c. x * 10 + (of_char c - 48)) 0 s"

definition parseUint :: "string \<Rightarrow> int \<Rightarrow> int \<Rightarrow> int option" where
  "parseUint s lo hi =
     (if list_all isDigit s \<and> lo \<le> atoi s \<and> atoi s \<le> hi then Some (atoi s) else None)"

definition daysSinceEpoch :: "int \<Rightarrow> int" where
  "daysSinceEpoch year =
     (let y = year - 1;
          n400 = y div 400;
          y1 = y - 400 * n400;
          n100 = y1 div 100;
          y2 = y1 - 100 * n100;
          n4 = y2 div 4;
          y3 = y2 - 4 * n4
      in 146097 * n400 + 36524 * n100 + 1461 * n4 + 365 * y3)"

definition Date :: "int \<Rightarrow> int \<Rightarrow> int \<Rightarrow> int \<Rightarrow> int \<Rightarrow> int \<Rightarrow> int \<Rightarrow> int \<Rightarrow> time" where
  "Date year month day hour minute sec ns loc =
     (let d = daysSinceEpoch year + daysBefore ! nat (month - 1)
              + (if isLeap year \<and> month \<ge> 3 then 1 else 0) + (day - 1);
          abs = d * 86400 + hour * 3600 + minute * 60 + sec
      in \<lparr>unix = abs - unixToInternal - loc, nsec = ns, zone = loc\<rparr>)"

definition parseNanoseconds :: "string \<Rightarrow> int" where
  "parseNanoseconds ds =
     (let v = take 9 ds in atoi v * 10 ^ (9 - length v))"

definition parseFraction :: "string \<Rightarrow> int \<times> string" where
  "parseFraction s =
     (case s of
        c # d # _ \<Rightarrow>
          if c = CHR ''.'' \<and> isDigit d
          then (parseNanoseconds (takeWhile isDigit (tl s)), dropWhile isDigit (tl s))
          else (0, s)
      | _ \<Rightarrow> (0, s))"

definition parseZone :: "string \<Rightarrow> int option" where
  "parseZone s =
     (if s = ''Z'' then Some 0
      else if length s \<noteq> 6 then None
      else
        (case (parseUint (take 2 (drop 1 s)) 0 23, parseUint (take 2 (drop 4 s)) 0 59) of
           (Some hr, Some mm) \<Rightarrow>
             if (s ! 0 = CHR ''-'' \<or> s ! 0 = CHR ''+'') \<and> s ! 3 = CHR '':''
             then Some ((if s ! 0 = CHR ''-'' then - 1 else 1) * ((hr * 60 + mm) * 60))
             else None
         | _ \<Rightarrow> None))"

definition parse_RFC3339 :: "string \<Rightarrow> error + time" where
  "parse_RFC3339 s =
     (if length s < 19 then Inl ErrParseTime
      else
        (case (parseUint (take 4 s) 0 9999, parseUint (take 2 (drop 5 s)) 1 12) of
           (Some year, Some month) \<Rightarrow>
             (case (parseUint (take 2 (drop 8 s)) 1 (daysIn month year),
                    parseUint (take 2 (drop 11 s)) 0 23,
                    parseUint (take 2 (drop 14 s)) 0 59,
                    parseUint (take 2 (drop 17 s)) 0 59) of
                (Some day, Some hour, Some minute, Some sec) \<Rightarrow>
                  if s ! 4 = CHR ''-'' \<and> s ! 7 = CHR ''-'' \<and> s ! 10 = CHR ''T''
                     \<and> s ! 13 = CHR '':'' \<and> s ! 16 = CHR '':''
                  then
                    (case parseFraction (drop 19 s) of
                       (ns, rest) \<Rightarrow>
                         (case parseZone rest of
                            Some off \<Rightarrow> Inr (Date year month day hour minute sec ns off)
                          | None \<Rightarrow> Inl ErrParseTime))
                  else Inl ErrParseTime
              | _ \<Rightarrow> Inl ErrParseTime)
         | _ \<Rightarrow> Inl ErrParseTime))"

text \<open>
  What the specification calls a valid RFC3339 UTC string: the \<open>date-time\<close> production of
  RFC 3339 without a fraction and with the offset \<^verbatim>\<open>Z\<close>, every field in its range.
\<close>

definition valid_rfc3339_utc :: "string \<Rightarrow> bool" where
  "valid_rfc3339_utc s =
     (length s = 20
      \<and> list_all isDigit (take 4 s) \<and> s ! 4 = CHR ''-''
      \<and> list_all isDigit (take 2 (drop 5 s)) \<and> s ! 7 = CHR ''-''
      \<and> list_all isDigit (take 2 (drop 8 s)) \<and> s ! 10 = CHR ''T''
      \<and> list_all isDigit (take 2 (drop 11 s)) \<and> s ! 13 = CHR '':''
      \<and> list_all isDigit (take 2 (drop 14 s)) \<and> s ! 16 = CHR '':''
      \<and> list_all isDigit (take 2 (drop 17 s)) \<and> s ! 19 = CHR ''Z''
      \<and> 1 \<le> atoi (take 2 (drop 5 s)) \<and> atoi (take 2 (drop 5 s)) \<le> 12
      \<and> 1 \<le> atoi (take 2 (drop 8 s))
      \<and> atoi (take 2 (drop 8 s)) \<le> daysIn (atoi (take 2 (drop 5 s))) (atoi (take 4 s))
      \<and> atoi (take 2 (drop 11 s)) \<le> 23
      \<and> atoi (take 2 (drop 14 s)) \<le> 59
      \<and> atoi (take 2 (drop 17 s)) \<le> 59)"

section \<open>Values\<close>

text \<open>
  \<open>bson\<close> is a value as the collection stores it. \<open>gval\<close> is a Go value of type
  \<^verbatim>\<open>any\<close>, tagged with its dynamic type, which is what a type assertion or a type switch
  of the handlers reads: \<^verbatim>\<open>int32\<close>, \<^verbatim>\<open>int64\<close> and \<^verbatim>\<open>int\<close> are three types, and so are
  \<^verbatim>\<open>map[string]any\<close> and \<^verbatim>\<open>primitive.M\<close>. A \<^verbatim>\<open>float64\<close> is given by the rational number
  it stands for (finite values only); maps inside values are association lists.
  \<open>BOther\<close> and \<open>GOther\<close> stand for the remaining BSON types (binary, regular expression,
  timestamp, and so on) and the driver's Go types for them.
\<close>

datatype bson =
    BDouble rat
  | BString string
  | BDocument "(string \<times> bson) list"
  | BArray "bson list"
  | BObjectID ObjectID
  | BBoolean bool
  | BDateTime int
  | BNull
  | BInt32 int
  | BInt64 int
  | BOther nat

datatype gval =
    GNil
  | GBool bool
  | GString string
  | GInt32 int
  | GInt64 int
  | GInt int
  | GFloat64 rat
  | GObjectID ObjectID
  | GDateTime int
  | GTime time
  | GMapAny "(string \<times> gval) list"
  | GPrimM "(string \<times> gval) list"
  | GSliceAny "gval list"
  | GPrimA "gval list"
  | GOther nat

type_synonym bdoc = "(string \<times> bson) list"

text \<open>
  Decoding a stored value into \<^verbatim>\<open>bson.M\<close> (the driver's default registry): an embedded
  document becomes a \<^verbatim>\<open>primitive.M\<close>, an array a \<^verbatim>\<open>primitive.A\<close>, a 64-bit integer an
  \<^verbatim>\<open>int64\<close>, a datetime a \<^verbatim>\<open>primitive.DateTime\<close>.
\<close>

primrec decode :: "bson \<Rightarrow> gval" where
  "decode (BDouble r) = GFloat64 r"
| "decode (BString s) = GString s"
| "decode (BDocument kvs) = GPrimM (map (map_prod id decode) kvs)"
| "decode (BArray vs) = GPrimA (map decode vs)"
| "decode (BObjectID oid) = GObjectID oid"
| "decode (BBoolean b) = GBool b"
| "decode (BDateTime d) = GDateTime d"
| "decode BNull = GNil"
| "decode (BInt32 i) = GInt32 i"
| "decode (BInt64 i) = GInt64 i"
| "decode (BOther n) = GOther n"

text \<open>
  Encoding a Go value for the collection: an \<^verbatim>\<open>int\<close> is written as a 32-bit integer when
  it fits and as a 64-bit integer otherwise, a \<^verbatim>\<open>time.Time\<close> as a datetime of
  milliseconds, a map as an embedded document.
\<close>

primrec encode :: "gval \<Rightarrow> bson" where
  "encode GNil = BNull"
| "encode (GBool b) = BBoolean b"
| "encode (GString s) = BString s"
| "encode (GInt32 i) = BInt32 i"
| "encode (GInt64 i) = BInt64 i"
| "encode (GInt i) = (if fitsIn32Bits i then BInt32 i else BInt64 i)"
| "encode (GFloat64 r) = BDouble r"
| "encode (GObjectID oid) = BObjectID oid"
| "encode (GDateTime d) = BDateTime d"
| "encode (GTime t) = BDateTime (NewDateTimeFromTime t)"
| "encode (GMapAny kvs) = BDocument (map (map_prod id encode) kvs)"
| "encode (GPrimM kvs) = BDocument (map (map_prod id encode) kvs)"
| "encode (GSliceAny vs) = BArray (map encode vs)"
| "encode (GPrimA vs) = BArray (map encode vs)"
| "encode (GOther n) = BOther n"

text \<open>
  \<^verbatim>\<open>int(v)\<close> for a \<^verbatim>\<open>float64\<close> \<open>v\<close> discards the fraction. When the result does not fit
  an \<^verbatim>\<open>int\<close> the language leaves the value to the implementation; the model takes the
  one of amd64.
\<close>

definition truncate :: "rat \<Rightarrow> int" where
  "truncate r = (if 0 \<le> r then \<lfloor>r\<rfloor> else \<lceil>r\<rceil>)"

definition float64_to_int :: "rat \<Rightarrow> int" where
  "float64_to_int r = (if fitsIn64Bits (truncate r) then truncate r else - (2 ^ 63))"

section \<open>The document store\<close>

text \<open>
  The handlers reach the database only through the collection \<^verbatim>\<open>users\<close> of
  \<^verbatim>\<open>mc.DB\<close>. The state they run in:
  \<^item> \<open>users\<close>: the documents of the collection, in the order a cursor returns them;
  \<^item> \<open>up\<close>: whether an operation gets its answer within the ten seconds of its context;
  \<^item> \<open>calls\<close>: the operations sent so far;
  \<^item> \<open>clock\<close>: what \<^verbatim>\<open>time.Now()\<close> returns, and \<open>local\<close>: the offset of \<^verbatim>\<open>time.Local\<close>;
  \<^item> \<open>processUnique\<close> and \<open>objectIDCounter\<close>: the driver's state for new identifiers.

  The operations follow the driver and the server (MongoDB 5.0 and later) for what the
  handlers send. An empty \<^verbatim>\<open>$set\<close> document is accepted and changes nothing.
\<close>

datatype dbcall =
    CallInsertOne bdoc
  | CallFind
  | CallFindOne ObjectID
  | CallUpdateByID ObjectID
  | CallDeleteOne ObjectID

record world =
  users :: "bdoc list"
  up :: bool
  calls :: "dbcall list"
  clock :: time
  local :: int
  processUnique :: nat
  objectIDCounter :: nat

definition sent :: "dbcall \<Rightarrow> world \<Rightarrow> world" where
  "sent c w = w\<lparr>calls := calls w @ [c]\<rparr>"

definition has_id :: "ObjectID \<Rightarrow> bdoc \<Rightarrow> bool" where
  "has_id oid d = (map_of d ''_id'' = Some (BObjectID oid))"

text \<open>\<^verbatim>\<open>primitive.NewObjectID()\<close>: four bytes of time, five of the process, three of a counter.\<close>

definition NewObjectID :: "world \<Rightarrow> ObjectID \<times> world" where
  "NewObjectID w =
     (let ts = nat (unix (clock w) mod 4294967296);
          c = (objectIDCounter w + 1) mod 4294967296;
          pu = processUnique w
      in ([ts div 16777216 mod 256, ts div 65536 mod 256, ts div 256 mod 256, ts mod 256,
           pu div 4294967296 mod 256, pu div 16777216 mod 256, pu div 65536 mod 256,
           pu div 256 mod 256, pu mod 256,
           c div 65536 mod 256, c div 256 mod 256, c mod 256],
          w\<lparr>objectIDCounter := c\<rparr>))"

text \<open>
  \<^verbatim>\<open>coll.InsertOne(ctx, doc)\<close>: the driver puts a new \<^verbatim>\<open>_id\<close> in front of a document
  that has none; the server refuses an \<^verbatim>\<open>_id\<close> that the collection already holds.
  The result is \<^verbatim>\<open>InsertedID\<close>.
\<close>

definition InsertOne :: "world \<Rightarrow> bdoc \<Rightarrow> (error + gval) \<times> world" where
  "InsertOne w doc =
     (case (case map_of doc ''_id'' of
              Some v \<Rightarrow> (v, doc, w)
            | None \<Rightarrow> (case NewObjectID w of
                          (oid, w1) \<Rightarrow> (BObjectID oid, (''_id'', BObjectID oid) # doc, w1))) of
        (idv, doc1, w1) \<Rightarrow>
          (let w2 = sent (CallInsertOne doc1) w1 in
           if \<not> up w2 then (Inl ErrDeadline, w2)
           else if list_ex (\<lambda>d. map_of d ''_id'' = Some idv) (users w2)
             then (Inl ErrDuplicateKey, w2)
           else (Inr (decode idv), w2\<lparr>users := users w2 @ [doc1]\<rparr>)))"

text \<open>\<^verbatim>\<open>coll.Find(ctx, bson.M{})\<close>: a cursor over every document.\<close>

definition Find :: "world \<Rightarrow> (error + bdoc list) \<times> world" where
  "Find w =
     (let w1 = sent CallFind w in
      if \<not> up w1 then (Inl ErrDeadline, w1) else (Inr (users w1), w1))"

text \<open>\<^verbatim>\<open>coll.FindOne(ctx, bson.M{"_id": oid})\<close>, before \<^verbatim>\<open>Decode\<close>.\<close>

definition FindOne :: "world \<Rightarrow> ObjectID \<Rightarrow> (error + bdoc) \<times> world" where
  "FindOne w oid =
     (let w1 = sent (CallFindOne oid) w in
      if \<not> up w1 then (Inl ErrDeadline, w1)
      else case find (has_id oid) (users w1) of
             None \<Rightarrow> (Inl ErrNoDocuments, w1)
           | Some d \<Rightarrow> (Inr d, w1))"

text \<open>
  \<^verbatim>\<open>Decode(&raw)\<close> with \<^verbatim>\<open>raw\<close> a \<^verbatim>\<open>bson.M\<close>: the elements are put into the map in
  their order, so that of a repeated field name the last value stays.
\<close>

definition Decode :: "bdoc \<Rightarrow> error + (string \<rightharpoonup> gval)" where
  "Decode d = Inr (\<lambda>k. map_option decode (map_of (rev d) k))"

subsection \<open>Update paths\<close>

text \<open>
  A key of a \<^verbatim>\<open>$set\<close> document is a path: field names separated by dots. \<open>split_path\<close>
  gives its segments and \<open>root\<close> the first of them, the top-level field the key names or
  leads into.
\<close>

fun split_on :: "char \<Rightarrow> string \<Rightarrow> string list" where
  "split_on c [] = [[]]"
| "split_on c (x # xs) =
     (if x = c then [] # split_on c xs
      else case split_on c xs of s # ss \<Rightarrow> (x # s) # ss | [] \<Rightarrow> [[x]])"

definition split_path :: "string \<Rightarrow> string list" where
  "split_path k = split_on (CHR ''.'') k"

definition root :: "string \<Rightarrow> string" where
  "root k = takeWhile (\<lambda>x. x \<noteq> CHR ''.'') k"

text \<open>
  What the server checks of the \<^verbatim>\<open>$set\<close> document before it looks for the document to
  update. A path is refused when it is empty or has an empty segment, when the positional
  operator \<^verbatim>\<open>$\<close> is its first segment or occurs twice, and when a segment is a filtered
  positional operator \<^verbatim>\<open>$[name]\<close> (the handler passes no array filters). Two paths of
  which one is a prefix of the other are in conflict.
\<close>

definition is_array_filter :: "string \<Rightarrow> bool" where
  "is_array_filter s = (3 < length s \<and> take 2 s = ''$['' \<and> last s = CHR '']'')"

definition check_path :: "string \<Rightarrow> error option" where
  "check_path k =
     (let segs = split_path k in
      if k = [] \<or> [] \<in> set segs then Some (ErrEmptyFieldName k)
      else if hd segs = ''$'' \<or> 1 < length (filter (\<lambda>s. s = ''$'') segs)
        then Some (ErrPositional k)
      else if list_ex is_array_filter segs then Some (ErrNoArrayFilter k)
      else None)"

definition is_prefix :: "'a list \<Rightarrow> 'a list \<Rightarrow> bool" where
  "is_prefix p q = (take (length p) q = p)"

fun no_conflict :: "string list list \<Rightarrow> bool" where
  "no_conflict [] = True"
| "no_conflict (p # ps) =
     (list_all (\<lambda>q. \<not> is_prefix p q \<and> \<not> is_prefix q p) ps \<and> no_conflict ps)"

definition check_set :: "string list \<Rightarrow> error option" where
  "check_set ks =
     (case List.map_filter check_path ks of
        err # _ \<Rightarrow> Some err
      | [] \<Rightarrow> if no_conflict (map split_path ks) then None else Some ErrConflictingPaths)"

text \<open>
  Setting the value \<open>v\<close> at a path inside a stored value. A missing field is created, with
  embedded documents for the segments that remain (\<open>nest\<close>). In a document a segment is a
  field name; in an array it is an index (the array is padded with nulls up to a new
  index) or \<^verbatim>\<open>$[]\<close>, every element; through any other value there is no path.
\<close>

fun nest :: "string list \<Rightarrow> bson \<Rightarrow> bson" where
  "nest [] v = v"
| "nest (s # rest) v = BDocument [(s, nest rest v)]"

definition parse_index :: "string \<Rightarrow> nat option" where
  "parse_index s =
     (if s \<noteq> [] \<and> list_all isDigit s \<and> (length s = 1 \<or> hd s \<noteq> CHR ''0'')
      then Some (nat (atoi s)) else None)"

definition collect :: "(error + 'a) list \<Rightarrow> error + 'a list" where
  "collect rs =
     (case find isl rs of
        Some r \<Rightarrow> Inl (projl r)
      | None \<Rightarrow> Inr (map projr rs))"

fun set_path :: "string list \<Rightarrow> bson \<Rightarrow> bson \<Rightarrow> error + bson" where
  "set_path [] v x = Inr v"
| "set_path (s # rest) v (BDocument fs) =
     (if s = ''$[]'' then Inl (ErrPathNotViable s)
      else case map_of fs s of
        None \<Rightarrow>
          if ''$[]'' \<in> set rest then Inl (ErrPathNotViable s)
          else Inr (BDocument (fs @ [(s, nest rest v)]))
      | Some x \<Rightarrow>
          (case set_path rest v x of
             Inl err \<Rightarrow> Inl err
           | Inr x1 \<Rightarrow> Inr (BDocument (AList.update s x1 fs))))"
| "set_path (s # rest) v (BArray xs) =
     (if s = ''$[]'' then
        (case collect (map (set_path rest v) xs) of
           Inl err \<Rightarrow> Inl err
         | Inr xs1 \<Rightarrow> Inr (BArray xs1))
      else case parse_index s of
        None \<Rightarrow> Inl (ErrPathNotViable s)
      | Some n \<Rightarrow>
          if n < length xs then
            (case set_path rest v (xs ! n) of
               Inl err \<Rightarrow> Inl err
             | Inr x1 \<Rightarrow> Inr (BArray (xs[n := x1])))
          else if ''$[]'' \<in> set rest \<or> 1500000 < n - length xs then Inl (ErrPathNotViable s)
          else Inr (BArray (xs @ replicate (n - length xs) BNull @ [nest rest v])))"
| "set_path (s # rest) v x = Inl (ErrPathNotViable s)"

text \<open>
  One field of the \<^verbatim>\<open>$set\<close> on the matched document \<open>d\<close>. The positional operator finds
  no array element, since the query names only \<^verbatim>\<open>_id\<close>; a top-level field name may not
  start with \<^verbatim>\<open>$\<close>; \<^verbatim>\<open>_id\<close> is immutable, so that only its own value may be set.
\<close>

definition apply_set :: "string \<times> bson \<Rightarrow> bdoc \<Rightarrow> error + bdoc" where
  "apply_set kv d =
     (case kv of (k, v) \<Rightarrow>
        (let segs = split_path k in
         if ''$'' \<in> set segs then Inl (ErrPositional k)
         else if take 1 (root k) = ''$'' then Inl (ErrDollarPrefixedField k)
         else if root k = ''_id'' then
           (if segs = [''_id''] \<and> map_of d ''_id'' = Some v then Inr d else Inl ErrImmutableField)
         else case set_path segs v (BDocument d) of
                Inr (BDocument d1) \<Rightarrow> Inr d1
              | Inr _ \<Rightarrow> Inl (ErrPathNotViable k)
              | Inl err \<Rightarrow> Inl err))"

fun apply_sets :: "(string \<times> bson) list \<Rightarrow> bdoc \<Rightarrow> error + bdoc" where
  "apply_sets [] d = Inr d"
| "apply_sets (kv # kvs) d =
     (case apply_set kv d of
        Inl err \<Rightarrow> Inl err
      | Inr d1 \<Rightarrow> apply_sets kvs d1)"

text \<open>
  The driver cannot encode a map with a key that holds a zero byte, at any depth;
  \<open>null_keys\<close> lists such keys.
\<close>

primrec null_keys :: "gval \<Rightarrow> string list" where
  "null_keys GNil = []"
| "null_keys (GBool b) = []"
| "null_keys (GString s) = []"
| "null_keys (GInt32 i) = []"
| "null_keys (GInt64 i) = []"
| "null_keys (GInt i) = []"
| "null_keys (GFloat64 r) = []"
| "null_keys (GObjectID oid) = []"
| "null_keys (GDateTime d) = []"
| "null_keys (GTime t) = []"
| "null_keys (GMapAny kvs) =
     concat (map (\<lambda>kv. (if CHR 0x00 \<in> set (fst kv) then [fst kv] else []) @ snd kv)
       (map (map_prod id null_keys) kvs))"
| "null_keys (GPrimM kvs) =
     concat (map (\<lambda>kv. (if CHR 0x00 \<in> set (fst kv) then [fst kv] else []) @ snd kv)
       (map (map_prod id null_keys) kvs))"
| "null_keys (GSliceAny vs) = concat (map null_keys vs)"
| "null_keys (GPrimA vs) = concat (map null_keys vs)"
| "null_keys (GOther n) = []"

fun update_first :: "('a \<Rightarrow> bool) \<Rightarrow> ('a \<Rightarrow> 'a) \<Rightarrow> 'a list \<Rightarrow> 'a list" where
  "update_first P f [] = []"
| "update_first P f (x # xs) = (if P x then f x # xs else x # update_first P f xs)"

text \<open>
  \<^verbatim>\<open>coll.UpdateByID(ctx, oid, bson.M{"$set": body})\<close>. A body the driver cannot encode
  is an error before anything is sent. A nil map is sent as null, which the server refuses
  as a modifier. The server checks the paths, then looks for the first document with the
  identifier: none is no error; the fields are set on the one found, all or none.
\<close>

definition UpdateByID ::
  "world \<Rightarrow> ObjectID \<Rightarrow> (string \<times> gval) list option \<Rightarrow> error option \<times> world" where
  "UpdateByID w oid body =
     (if null_keys (GMapAny (case body of None \<Rightarrow> [] | Some kvs \<Rightarrow> kvs)) \<noteq> []
      then (Some ErrNullByteKey, w)
      else
        (let w1 = sent (CallUpdateByID oid) w in
         if \<not> up w1 then (Some ErrDeadline, w1)
         else case body of
           None \<Rightarrow> (Some ErrModifierNotDocument, w1)
         | Some kvs \<Rightarrow>
             (case check_set (map fst kvs) of
                Some err \<Rightarrow> (Some err, w1)
              | None \<Rightarrow>
                  (case find (has_id oid) (users w1) of
                     None \<Rightarrow> (None, w1)
                   | Some d \<Rightarrow>
                       (case apply_sets (map (map_prod id encode) kvs) d of
                          Inl err \<Rightarrow> (Some err, w1)
                        | Inr d1 \<Rightarrow>
                            (None,
                             w1\<lparr>users := update_first (has_id oid) (\<lambda>_. d1) (users w1)\<rparr>))))))"

text \<open>\<^verbatim>\<open>coll.DeleteOne(ctx, bson.M{"_id": oid})\<close>: the first matching document goes.\<close>

fun delete_first :: "('a \<Rightarrow> bool) \<Rightarrow> 'a list \<Rightarrow> 'a list" where
  "delete_first P [] = []"
| "delete_first P (x # xs) = (if P x then xs else x # delete_first P xs)"

definition DeleteOne :: "world \<Rightarrow> ObjectID \<Rightarrow> error option \<times> world" where
  "DeleteOne w oid =
     (let w1 = sent (CallDeleteOne oid) w in
      if \<not> up w1 then (Some ErrDeadline, w1)
      else (None, w1\<lparr>users := delete_first (has_id oid) (users w1)\<rparr>))"

section \<open>Responses\<close>

text \<open>
  A response is its status, its content type and its body. \<^verbatim>\<open>http.Error\<close> writes the
  message and a newline as plain text; a message built with \<^verbatim>\<open>fmt.Sprintf("...: %v", err)\<close>
  is kept as its prefix and the error. \<open>writeJSON\<close> encodes one of three Go values: a
  \<^verbatim>\<open>map[string]string\<close>, a \<^verbatim>\<open>map[string]any\<close> or a \<^verbatim>\<open>[]map[string]any\<close>, where \<open>None\<close>
  is the nil slice. \<^verbatim>\<open>encoding/json\<close> writes a map as an object, a slice as an array and
  a nil slice as \<^verbatim>\<open>null\<close>; the members of an object stay Go values here.
\<close>

datatype content =
    Text string
  | ErrText string error
  | JsonNull
  | JsonStrings "(string \<times> string) list"
  | JsonObject "string \<rightharpoonup> gval"
  | JsonArray "(string \<rightharpoonup> gval) list"

record response =
  status :: nat
  content_type :: string
  body :: content

datatype jsonarg =
    MapStringString "(string \<times> string) list"
  | MapStringAny "string \<rightharpoonup> gval"
  | SliceMapStringAny "(string \<rightharpoonup> gval) list option"

abbreviation StatusOK :: nat where "StatusOK \<equiv> 200"
abbreviation StatusCreated :: nat where "StatusCreated \<equiv> 201"
abbreviation StatusBadRequest :: nat where "StatusBadRequest \<equiv> 400"
abbreviation StatusNotFound :: nat where "StatusNotFound \<equiv> 404"
abbreviation StatusInternalServerError :: nat where "StatusInternalServerError \<equiv> 500"

definition http_Error :: "string \<Rightarrow> nat \<Rightarrow> response" where
  "http_Error msg code =
     \<lparr>status = code, content_type = ''text/plain; charset=utf-8'',
      body = Text (msg @ [CHR 0x0A])\<rparr>"

definition http_Errorf :: "string \<Rightarrow> error \<Rightarrow> nat \<Rightarrow> response" where
  "http_Errorf prefix err code =
     \<lparr>status = code, content_type = ''text/plain; charset=utf-8'',
      body = ErrText prefix err\<rparr>"

definition json_Encode :: "jsonarg \<Rightarrow> content" where
  "json_Encode v =
     (case v of
        MapStringString m \<Rightarrow> JsonStrings m
      | MapStringAny m \<Rightarrow> JsonObject m
      | SliceMapStringAny None \<Rightarrow> JsonNull
      | SliceMapStringAny (Some ms) \<Rightarrow> JsonArray ms)"

definition writeJSON :: "nat \<Rightarrow> jsonarg \<Rightarrow> response" where
  "writeJSON st v = \<lparr>status = st, content_type = ''application/json'', body = json_Encode v\<rparr>"

definition TrimPrefix :: "string \<Rightarrow> string \<Rightarrow> string" where
  "TrimPrefix s pre = (if take (length pre) s = pre then drop (length pre) s else s)"

section \<open>The handlers\<close>

subsection \<open>Normalising a document\<close>

text \<open>
  The blocks that copy \<^verbatim>\<open>age\<close> and \<^verbatim>\<open>created_at\<close> from the decoded document \<open>raw\<close> into
  the response map are the same text in \<^verbatim>\<open>listUsers\<close> and \<^verbatim>\<open>getUser\<close>; they are
  \<open>put_age\<close> and \<open>put_created_at\<close>. \<open>loc\<close> is the offset of \<^verbatim>\<open>time.Local\<close>, the location
  of the value \<^verbatim>\<open>DateTime.Time()\<close> returns.
\<close>

definition put_age :: "(string \<rightharpoonup> gval) \<Rightarrow> (string \<rightharpoonup> gval) \<Rightarrow> (string \<rightharpoonup> gval)" where
  "put_age raw m =
     (case raw ''age'' of
        Some (GInt32 v) \<Rightarrow> m(''age'' \<mapsto> GInt v)
      | Some (GInt v) \<Rightarrow> m(''age'' \<mapsto> GInt v)
      | Some (GFloat64 v) \<Rightarrow> m(''age'' \<mapsto> GInt (float64_to_int v))
      | _ \<Rightarrow> m)"

definition created_at_value :: "int \<Rightarrow> gval \<Rightarrow> gval" where
  "created_at_value loc cat =
     (case cat of
        GDateTime t \<Rightarrow> GString (Format_RFC3339 (UTC (DateTime_Time loc t)))
      | GTime t \<Rightarrow> GString (Format_RFC3339 (UTC t))
      | GMapAny t \<Rightarrow>
          (case map_of t ''$date'' of
             Some (GString s) \<Rightarrow>
               (case parse_RFC3339 s of
                  Inr parsed \<Rightarrow> GString (Format_RFC3339 (UTC parsed))
                | Inl err \<Rightarrow> GString s)
           | _ \<Rightarrow> GMapAny t)
      | t \<Rightarrow> t)"

definition put_created_at ::
  "int \<Rightarrow> (string \<rightharpoonup> gval) \<Rightarrow> (string \<rightharpoonup> gval) \<Rightarrow> (string \<rightharpoonup> gval)" where
  "put_created_at loc raw m =
     (case raw ''created_at'' of
        Some cat \<Rightarrow> m(''created_at'' \<mapsto> created_at_value loc cat)
      | None \<Rightarrow> m)"

definition put_string ::
  "string \<Rightarrow> (string \<rightharpoonup> gval) \<Rightarrow> (string \<rightharpoonup> gval) \<Rightarrow> (string \<rightharpoonup> gval)" where
  "put_string k raw m = (case raw k of Some (GString v) \<Rightarrow> m(k \<mapsto> GString v) | _ \<Rightarrow> m)"

subsection \<open>\<^verbatim>\<open>listUsers\<close>: GET /users\<close>

definition listUsers_item :: "int \<Rightarrow> (string \<rightharpoonup> gval) \<Rightarrow> (string \<rightharpoonup> gval)" where
  "listUsers_item loc raw =
     (let m0 = (case raw ''_id'' of
                  Some (GObjectID idv) \<Rightarrow> Map.empty(''id'' \<mapsto> GString (Hex idv))
                | _ \<Rightarrow> Map.empty(''id'' \<mapsto> GString []));
          m1 = put_string ''name'' raw m0;
          m2 = put_string ''email'' raw m1;
          m3 = put_age raw m2
      in put_created_at loc raw m3)"

definition append_slice :: "'a list option \<Rightarrow> 'a \<Rightarrow> 'a list option" where
  "append_slice out m = (case out of None \<Rightarrow> Some [m] | Some ms \<Rightarrow> Some (ms @ [m]))"

fun listUsers_loop ::
  "int \<Rightarrow> bdoc list \<Rightarrow> (string \<rightharpoonup> gval) list option
    \<Rightarrow> error + (string \<rightharpoonup> gval) list option" where
  "listUsers_loop loc [] out = Inr out"
| "listUsers_loop loc (d # cur) out =
     (case Decode d of
        Inl err \<Rightarrow> Inl err
      | Inr raw \<Rightarrow> listUsers_loop loc cur (append_slice out (listUsers_item loc raw)))"

definition listUsers :: "world \<Rightarrow> response \<times> world" where
  "listUsers w =
     (case Find w of
        (Inl err, w1) \<Rightarrow> (http_Errorf ''find error: '' err StatusInternalServerError, w1)
      | (Inr cur, w1) \<Rightarrow>
          (case listUsers_loop (local w1) cur None of
             Inl err \<Rightarrow> (http_Errorf ''decode error: '' err StatusInternalServerError, w1)
           | Inr out \<Rightarrow> (writeJSON StatusOK (SliceMapStringAny out), w1)))"

subsection \<open>\<^verbatim>\<open>getUser\<close>: GET /users/{id}\<close>

definition getUser_resp :: "int \<Rightarrow> (string \<rightharpoonup> gval) \<Rightarrow> (string \<rightharpoonup> gval)" where
  "getUser_resp loc raw =
     (let resp0 = Map.empty(''id'' \<mapsto> GString []);
          resp1 = (case raw ''_id'' of
                     Some (GObjectID idv) \<Rightarrow> resp0(''id'' \<mapsto> GString (Hex idv))
                   | _ \<Rightarrow> resp0);
          resp2 = put_string ''name'' raw resp1;
          resp3 = put_string ''email'' raw resp2;
          resp4 = put_age raw resp3
      in put_created_at loc raw resp4)"

definition getUser :: "world \<Rightarrow> string \<Rightarrow> response \<times> world" where
  "getUser w path =
     (case ObjectIDFromHex (TrimPrefix path ''/users/'') of
        Inl err \<Rightarrow> (http_Error ''invalid id'' StatusBadRequest, w)
      | Inr oid \<Rightarrow>
          (case FindOne w oid of
             (Inl err, w1) \<Rightarrow>
               if err = ErrNoDocuments then (http_Error ''not found'' StatusNotFound, w1)
               else (http_Errorf ''find error: '' err StatusInternalServerError, w1)
           | (Inr d, w1) \<Rightarrow>
               (case Decode d of
                  Inl err \<Rightarrow> (http_Errorf ''find error: '' err StatusInternalServerError, w1)
                | Inr raw \<Rightarrow>
                    (writeJSON StatusOK (MapStringAny (getUser_resp (local w1) raw)), w1))))"

subsection \<open>\<^verbatim>\<open>createUser\<close>: POST /users\<close>

text \<open>
  The struct \<^verbatim>\<open>User\<close>. The argument \<open>decoded\<close> of \<open>createUser\<close> is the outcome of
  \<^verbatim>\<open>json.NewDecoder(r.Body).Decode(&in)\<close>: an error, or the struct with the fields the
  payload gave and the zero value in the others. \<open>Marshal_User\<close> is the driver's encoding
  of the struct under its \<^verbatim>\<open>bson\<close> tags, each with \<^verbatim>\<open>omitempty\<close>.
\<close>

record User =
  ID :: ObjectID
  Name :: string
  Email :: string
  Age :: int
  CreatedAt :: time

definition Marshal_User :: "User \<Rightarrow> bdoc" where
  "Marshal_User u =
     (if ID u = NilObjectID then [] else [(''_id'', BObjectID (ID u))])
     @ (if Name u = [] then [] else [(''name'', BString (Name u))])
     @ (if Email u = [] then [] else [(''email'', BString (Email u))])
     @ (if Age u = 0 then [] else [(''age'', encode (GInt (Age u)))])
     @ (if IsZero (CreatedAt u) then [] else [(''created_at'', encode (GTime (CreatedAt u)))])"

definition createUser :: "world \<Rightarrow> error + User \<Rightarrow> response \<times> world" where
  "createUser w decoded =
     (case decoded of
        Inl err \<Rightarrow> (http_Error ''invalid json body'' StatusBadRequest, w)
      | Inr in0 \<Rightarrow>
          (let u = (if IsZero (CreatedAt in0) then in0\<lparr>CreatedAt := UTC (clock w)\<rparr> else in0)
           in case InsertOne w (Marshal_User u) of
                (Inl err, w1) \<Rightarrow>
                  (http_Errorf ''insert error: '' err StatusInternalServerError, w1)
              | (Inr res, w1) \<Rightarrow>
                  (let id = (case res of GObjectID oid \<Rightarrow> Hex oid | _ \<Rightarrow> [])
                   in (writeJSON StatusCreated (MapStringString [(''id'', id)]), w1))))"

subsection \<open>\<^verbatim>\<open>updateUser\<close>: PUT /users/{id}\<close>

text \<open>
  \<open>decoded\<close> is the outcome of decoding the body into a \<^verbatim>\<open>map[string]any\<close>: an error,
  the nil map (\<open>None\<close>, for the body \<^verbatim>\<open>null\<close>) or a map, whose values are then
  \<^verbatim>\<open>float64\<close>, \<^verbatim>\<open>string\<close>, \<^verbatim>\<open>bool\<close>, nil, \<^verbatim>\<open>[]any\<close> and \<^verbatim>\<open>map[string]any\<close>.
\<close>

definition updateUser ::
  "world \<Rightarrow> string \<Rightarrow> error + (string \<times> gval) list option \<Rightarrow> response \<times> world" where
  "updateUser w path decoded =
     (case ObjectIDFromHex (TrimPrefix path ''/users/'') of
        Inl err \<Rightarrow> (http_Error ''invalid id'' StatusBadRequest, w)
      | Inr oid \<Rightarrow>
          (case decoded of
             Inl err \<Rightarrow> (http_Error ''invalid json body'' StatusBadRequest, w)
           | Inr body0 \<Rightarrow>
               (let body1 = map_option (AList.delete ''id'') body0
                in case UpdateByID w oid body1 of
                     (Some err, w1) \<Rightarrow>
                       (http_Errorf ''update error: '' err StatusInternalServerError, w1)
                   | (None, w1) \<Rightarrow>
                       (writeJSON StatusOK (MapStringString [(''id'', Hex oid)]), w1))))"

subsection \<open>\<^verbatim>\<open>deleteUser\<close>: DELETE /users/{id}\<close>

definition deleteUser :: "world \<Rightarrow> string \<Rightarrow> response \<times> world" where
  "deleteUser w path =
     (case ObjectIDFromHex (TrimPrefix path ''/users/'') of
        Inl err \<Rightarrow> (http_Error ''invalid id'' StatusBadRequest, w)
      | Inr oid \<Rightarrow>
          (case DeleteOne w oid of
             (Some err, w1) \<Rightarrow>
               (http_Errorf ''delete error: '' err StatusInternalServerError, w1)
           | (None, w1) \<Rightarrow> (writeJSON StatusOK (MapStringString [(''id'', Hex oid)]), w1)))"

section \<open>The connection manager\<close>

text \<open>
  Package \<^verbatim>\<open>db\<close> (\<^verbatim>\<open>src/db/mongo.go\<close>). The process state it touches:
  \<^item> \<open>clientInstance\<close>: the package variable, nil (\<open>None\<close>) or the address of a
    \<^verbatim>\<open>MongoClient\<close>;
  \<^item> \<open>heap\<close>: the \<^verbatim>\<open>MongoClient\<close> structs allocated so far, an address being an index;
  \<^item> \<open>clients\<close>: the driver's clients created so far, each connected or disconnected;
  \<^item> \<open>network\<close>: what connecting to a URI leads to, and \<open>closes\<close>: whether closing a
    client finishes within its ten seconds;
  \<^item> \<open>log\<close>: the lines written with \<^verbatim>\<open>log.Println\<close>.

  The driver's \<^verbatim>\<open>(*mongo.Client).Disconnect\<close> returns \<^verbatim>\<open>ErrClientDisconnected\<close> for a
  client that is not connected.
\<close>

datatype client_status = Connected | Disconnected

datatype dial_result = DialOK | DialFails | PingFails

record MongoClient =
  Client :: "nat option"
  DB :: "(nat \<times> string) option"

record process =
  clientInstance :: "nat option"
  heap :: "MongoClient list"
  clients :: "client_status list"
  network :: "string \<Rightarrow> dial_result"
  closes :: bool
  log :: "string list"

definition Connect :: "string \<Rightarrow> string \<Rightarrow> process \<Rightarrow> (error + nat) \<times> process" where
  "Connect uri dbName s =
     (case clientInstance s of
        Some p \<Rightarrow> (Inr p, s)
      | None \<Rightarrow>
          (case network s uri of
             DialFails \<Rightarrow> (Inl (Wrapped ''failed to connect to MongoDB: '' ErrDial), s)
           | PingFails \<Rightarrow>
               (Inl (Wrapped ''failed to ping MongoDB: '' ErrDeadline),
                s\<lparr>clients := clients s @ [Connected]\<rparr>)
           | DialOK \<Rightarrow>
               (let c = length (clients s);
                    p = length (heap s)
                in (Inr p,
                    s\<lparr>clientInstance := Some p,
                      heap := heap s @ [\<lparr>Client = Some c, DB = Some (c, dbName)\<rparr>],
                      clients := clients s @ [Connected],
                      log := log s @ [''Connected to MongoDB!'']\<rparr>))))"

definition client_Disconnect :: "nat \<Rightarrow> process \<Rightarrow> error option \<times> process" where
  "client_Disconnect c s =
     (if c < length (clients s) \<and> clients s ! c = Connected
      then (if closes s then None else Some ErrDeadline,
            s\<lparr>clients := (clients s)[c := Disconnected]\<rparr>)
      else (Some ErrClientDisconnected, s))"

text \<open>\<^verbatim>\<open>func (mc *MongoClient) Disconnect() error\<close>, given the struct \<open>mc\<close> points to.\<close>

definition Disconnect :: "MongoClient \<Rightarrow> process \<Rightarrow> error option \<times> process" where
  "Disconnect mc s =
     (case Client mc of
        Some c \<Rightarrow>
          (case client_Disconnect c s of
             (Some err, s1) \<Rightarrow> (Some (Wrapped ''failed to disconnect from MongoDB: '' err), s1)
           | (None, s1) \<Rightarrow>
               (None, s1\<lparr>clientInstance := None,
                        log := log s1 @ [''Disconnected from MongoDB!'']\<rparr>))
      | None \<Rightarrow> (None, s))"

text \<open>A sequence of calls of \<open>Connect\<close>, one after the other, with the result of each.\<close>

fun Connect_calls :: "(string \<times> string) list \<Rightarrow> process \<Rightarrow> (error + nat) list \<times> process" where
  "Connect_calls [] s = ([], s)"
| "Connect_calls ((uri, dbName) # rest) s =
     (case Connect uri dbName s of
        (r, s1) \<Rightarrow> (case Connect_calls rest s1 of (rs, s2) \<Rightarrow> (r # rs, s2)))"

section \<open>Properties of an update\<close>

text \<open>
  \<open>frame oid kvs d d1\<close> relates a stored document \<open>d\<close> to the document \<open>d1\<close> in its
  place after \<^verbatim>\<open>PUT /users/{id}\<close> with the identifier \<open>oid\<close> and the body \<open>kvs\<close>: a
  document with another identifier is the same; \<^verbatim>\<open>_id\<close> is the same; and so is every
  top-level field that is not the root of a key of the body other than the key \<^verbatim>\<open>id\<close>.
\<close>

definition frame :: "ObjectID \<Rightarrow> (string \<times> gval) list \<Rightarrow> bdoc \<Rightarrow> bdoc \<Rightarrow> bool" where
  "frame oid kvs d d1 =
     ((\<not> has_id oid d \<longrightarrow> d1 = d)
      \<and> map_of d1 ''_id'' = map_of d ''_id''
      \<and> (\<forall>k. k \<notin> root ` fst ` set (AList.delete ''id'' kvs) \<longrightarrow> map_of d1 k = map_of d k))"

text \<open>
  \<open>valid_set kvs\<close>: the driver can encode the map \<open>kvs\<close> and the server accepts its keys
  as the paths of a \<^verbatim>\<open>$set\<close>.
\<close>

definition valid_set :: "(string \<times> gval) list \<Rightarrow> bool" where
  "valid_set kvs = (null_keys (GMapAny kvs) = [] \<and> check_set (map fst kvs) = None)"

text \<open>
  The instants that RFC 3339 can write: the years 0000 to 9999 in UTC, as seconds since
  1970.
\<close>

definition in_rfc3339_range :: "time \<Rightarrow> bool" where
  "in_rfc3339_range t = (- 62167219200 \<le> unix t \<and> unix t \<le> 253402300799)"

section \<open>Example states\<close>

text \<open>
  Concrete states and requests at which the theorems below are evaluated. \<open>world_ann\<close> is
  \<open>world_empty\<close> after \<^verbatim>\<open>POST /users {"name":"Ann","email":"a@x.com","age":31}\<close>.
\<close>

definition world_empty :: world where
  "world_empty =
     \<lparr>users = [], up = True, calls = [],
      clock = \<lparr>unix = 1714979289, nsec = 123456789, zone = 3600\<rparr>,
      local = 3600, processUnique = 1234567, objectIDCounter = 41\<rparr>"

definition oid_ann :: ObjectID where
  "oid_ann = [102, 56, 129, 217, 0, 0, 18, 214, 135, 0, 0, 42]"

definition doc_ann :: bdoc where
  "doc_ann =
     [(''_id'', BObjectID oid_ann), (''name'', BString ''Ann''), (''email'', BString ''a@x.com''),
      (''age'', BInt32 31), (''created_at'', BDateTime 1714979289123)]"

definition world_ann :: world where
  "world_ann = world_empty\<lparr>users := [doc_ann]\<rparr>"

definition id_ann :: string where
  "id_ann = ''663881d9000012d68700002a''"

definition id_unknown :: string where
  "id_unknown = ''0123456789ABCDEF01234567''"

definition oid_unknown :: ObjectID where
  "oid_unknown = [1, 35, 69, 103, 137, 171, 205, 239, 1, 35, 69, 103]"

definition body_age :: "(string \<times> gval) list" where
  "body_age = [(''age'', GFloat64 32), (''id'', GString ''7'')]"

text \<open>
  A process in which only \<^verbatim>\<open>mongodb://localhost:27017\<close> answers: \<open>process0\<close> before any
  call, \<open>process1\<close> after \<open>Connect\<close>, \<open>process2\<close> after \<open>Disconnect\<close> on the handle
  \<open>handle1\<close> that \<open>Connect\<close> returned.
\<close>

definition net_local :: "string \<Rightarrow> dial_result" where
  "net_local uri = (if uri = ''mongodb://localhost:27017'' then DialOK else PingFails)"

definition process0 :: process where
  "process0 =
     \<lparr>clientInstance = None, heap = [], clients = [], network = net_local, closes = True,
      log = []\<rparr>"

definition handle1 :: MongoClient where
  "handle1 = \<lparr>Client = Some 0, DB = Some (0, ''test_database'')\<rparr>"

definition process1 :: process where
  "process1 =
     \<lparr>clientInstance = Some 0, heap = [handle1], clients = [Connected], network = net_local,
      closes = True, log = [''Connected to MongoDB!'']\<rparr>"

definition process2 :: process where
  "process2 =
     \<lparr>clientInstance = None, heap = [handle1], clients = [Disconnected], network = net_local,
      closes = True, log = [''Connected to MongoDB!'', ''Disconnected from MongoDB!'']\<rparr>"

definition handle_nil :: MongoClient where
  "handle_nil = \<lparr>Client = None, DB = None\<rparr>"

text \<open>
  \<open>user_big\<close> is the struct decoded from \<^verbatim>\<open>{"name":"Bob","age":3000000000}\<close>, and
  \<open>world_big\<close> is \<open>world_empty\<close> after \<^verbatim>\<open>POST /users\<close> with it.
\<close>

definition user_big :: User where
  "user_big =
     \<lparr>ID = NilObjectID, Name = ''Bob'', Email = [], Age = 3000000000,
      CreatedAt = \<lparr>unix = - 62135596800, nsec = 0, zone = 0\<rparr>\<rparr>"

definition doc_big :: bdoc where
  "doc_big =
     [(''_id'', BObjectID oid_ann), (''name'', BString ''Bob''), (''age'', BInt64 3000000000),
      (''created_at'', BDateTime 1714979289123)]"

definition world_big :: world where
  "world_big = world_empty\<lparr>users := [doc_big], calls := [CallInsertOne doc_big], objectIDCounter := 42\<rparr>"

text \<open>
  A document with an embedded document, and bodies whose keys are a path into it, a plain
  field name and \<^verbatim>\<open>id\<close>.
\<close>

definition doc_addr :: bdoc where
  "doc_addr =
     [(''_id'', BObjectID oid_ann), (''name'', BString ''Ann''),
      (''addr'', BDocument [(''city'', BString ''Oslo''), (''street'', BString ''Storgata'')])]"

definition world_addr :: world where
  "world_addr = world_empty\<lparr>users := [doc_addr]\<rparr>"

definition body_city :: "(string \<times> gval) list" where
  "body_city = [(''addr.city'', GString ''Paris'')]"

definition body_mixed :: "(string \<times> gval) list" where
  "body_mixed = [(''addr.city'', GString ''Paris''), (''age'', GFloat64 32), (''id'', GString ''7'')]"

text \<open>\<open>doc_addr\<close> after an update with \<open>body_city\<close>, and after one with \<open>body_mixed\<close>.\<close>

definition doc_city :: bdoc where
  "doc_city =
     [(''_id'', BObjectID oid_ann), (''name'', BString ''Ann''),
      (''addr'', BDocument [(''city'', BString ''Paris''), (''street'', BString ''Storgata'')])]"

definition doc_mixed :: bdoc where
  "doc_mixed =
     [(''_id'', BObjectID oid_ann), (''name'', BString ''Ann''),
      (''addr'', BDocument [(''city'', BString ''Paris''), (''street'', BString ''Storgata'')]),
      (''age'', BDouble 32)]"

definition raw_ann :: "string \<rightharpoonup> gval" where
  "raw_ann = map_of
     [(''_id'', GObjectID oid_ann), (''name'', GString ''Ann''), (''email'', GString ''a@x.com''),
      (''age'', GInt32 31), (''created_at'', GDateTime 1714979289123)]"

definition doc_text :: bdoc where
  "doc_text = [(''_id'', BObjectID oid_ann), (''created_at'', BString ''yesterday'')]"

definition world_text :: world where
  "world_text = world_empty\<lparr>users := [doc_text]\<rparr>"

section \<open>Identifiers and paths\<close>

lemma of_char_image_mem: "(of_char c :: nat) \<in> of_char ` S \<Longrightarrow> c \<in> S"
  by (auto simp only: of_char_eq_iff)

lemma fromHexChar_Some_iff: "(fromHexChar c \<noteq> None) = is_hex_digit c"
proof
  assume "fromHexChar c \<noteq> None"
  then have "(48 \<le> (of_char c :: nat) \<and> (of_char c :: nat) \<le> 57)
     \<or> (97 \<le> (of_char c :: nat) \<and> (of_char c :: nat) \<le> 102)
     \<or> (65 \<le> (of_char c :: nat) \<and> (of_char c :: nat) \<le> 70)"
    by (auto simp: fromHexChar_def Let_def split: if_splits)
  then have "(of_char c :: nat) \<in> {48,49,50,51,52,53,54,55,56,57,97,98,99,100,101,102,65,66,67,68,69,70}"
    by (simp only: insert_iff empty_iff) arith
  then have "(of_char c :: nat) \<in> of_char ` set ''0123456789abcdefABCDEF''"
    by simp
  then show "is_hex_digit c"
    unfolding is_hex_digit_def by (rule of_char_image_mem)
next
  assume "is_hex_digit c"
  then show "fromHexChar c \<noteq> None"
    by (auto simp: is_hex_digit_def fromHexChar_def)
qed

lemma fromHexChar_lt16: "fromHexChar c = Some a \<Longrightarrow> a < 16"
  by (auto simp: fromHexChar_def Let_def split: if_splits)

lemma hex_Decode_Inr_iff:
  "(\<exists>bs. hex_Decode s = Inr bs) = (even (length s) \<and> list_all is_hex_digit s)"
proof (induction s rule: hex_Decode.induct)
  case 1
  show ?case by simp
next
  case (2 p)
  show ?case by (simp split: option.splits)
next
  case (3 p q src)
  show ?case
  proof (cases "fromHexChar p")
    case None
    then show ?thesis using fromHexChar_Some_iff[of p] by simp
  next
    case (Some a)
    note a = this
    show ?thesis
    proof (cases "fromHexChar q")
      case None
      then show ?thesis using a fromHexChar_Some_iff[of q] by simp
    next
      case (Some b)
      have "is_hex_digit p" "is_hex_digit q"
        using a Some fromHexChar_Some_iff[of p] fromHexChar_Some_iff[of q] by simp_all
      then show ?thesis using 3[OF a Some] a Some
        by (auto split: sum.splits)
    qed
  qed
qed

lemma hex_Decode_length: "hex_Decode s = Inr bs \<Longrightarrow> 2 * length bs = length s"
  by (induction s arbitrary: bs rule: hex_Decode.induct)
     (auto split: option.splits sum.splits)

lemma hex_Decode_bytes: "hex_Decode s = Inr bs \<Longrightarrow> list_all (\<lambda>b. b < 256) bs"
proof (induction s arbitrary: bs rule: hex_Decode.induct)
  case (3 p q src)
  then show ?case
    by (auto split: option.splits sum.splits dest!: fromHexChar_lt16)
qed (auto split: option.splits)

lemma ObjectIDFromHex_Inr_iff: "(\<exists>oid. ObjectIDFromHex s = Inr oid) = valid_hex_id s"
proof (cases "length s = 24")
  case True
  then have "even (length s)" by simp
  then show ?thesis using True hex_Decode_Inr_iff[of s]
    by (auto simp: ObjectIDFromHex_def valid_hex_id_def split: sum.splits)
next
  case False
  then show ?thesis by (simp add: ObjectIDFromHex_def valid_hex_id_def)
qed

lemma ObjectIDFromHex_is_oid: "ObjectIDFromHex s = Inr oid \<Longrightarrow> is_oid oid"
  using hex_Decode_length[of s oid] hex_Decode_bytes[of s oid]
  by (auto simp: ObjectIDFromHex_def is_oid_def split: if_splits sum.splits)

lemma TrimPrefix_users [simp]:
  "TrimPrefix (CHR ''/'' # CHR ''u'' # CHR ''s'' # CHR ''e'' # CHR ''r'' # CHR ''s'' # CHR ''/'' # s)
     ''/users/'' = s"
  by (simp add: TrimPrefix_def)

section \<open>The store operations\<close>

lemma find_None_iff_ball: "(find P xs = None) = (\<forall>x\<in>set xs. \<not> P x)"
  by (induction xs) auto

lemma update_first_no_match: "\<forall>x\<in>set xs. \<not> P x \<Longrightarrow> update_first P f xs = xs"
  by (induction xs) auto

lemma delete_first_no_match: "\<forall>x\<in>set xs. \<not> P x \<Longrightarrow> delete_first P xs = xs"
  by (induction xs) auto

lemma update_first_same: "find P xs = Some d \<Longrightarrow> update_first P (\<lambda>_. d) xs = xs"
  by (induction xs) (auto split: if_splits)

lemma list_all2_update_first:
  "(\<And>x. R x x) \<Longrightarrow> (\<And>x. P x \<Longrightarrow> R x (f x)) \<Longrightarrow> list_all2 R xs (update_first P f xs)"
  by (induction xs) (auto simp: list_all2_refl)

lemma list_all2_update_first_found:
  assumes "\<And>x. R x x" and "find P xs = Some d" and "R d d1"
  shows "list_all2 R xs (update_first P (\<lambda>_. d1) xs)"
  using assms(2) by (induction xs) (auto simp: list_all2_refl assms(1,3) split: if_splits)

lemma find_update_first_found:
  "find P xs = Some d \<Longrightarrow> P d1 \<Longrightarrow> find P (update_first P (\<lambda>_. d1) xs) = Some d1"
  by (induction xs) (auto split: if_splits)

lemma find_Some_holds: "find P xs = Some d \<Longrightarrow> P d"
  by (induction xs) (auto split: if_splits)

lemma map_of_None_iff: "(map_of kvs k = None) = (k \<notin> fst ` set kvs)"
  by (simp add: map_of_eq_None_iff)

lemma map_of_delete_id:
  "map_of (AList.delete ''id'' kvs) k = (if k = ''id'' then None else map_of kvs k)"
  by (simp add: AList.delete_conv')

subsection \<open>Paths\<close>

lemma split_on_not_Nil [simp]: "split_on c xs \<noteq> []"
  by (induction xs) (auto split: list.splits)

lemma hd_split_on: "hd (split_on c xs) = takeWhile (\<lambda>x. x \<noteq> c) xs"
  by (induction xs) (auto split: list.splits)

lemma hd_split_path: "hd (split_path k) = root k"
  by (simp add: split_path_def root_def hd_split_on)

lemma split_path_cons: "\<exists>rest. split_path k = root k # rest"
  using hd_split_path[of k] split_on_not_Nil[of "CHR ''.''" k]
  by (cases "split_path k") (auto simp: split_path_def)

lemma split_on_plain: "c \<notin> set xs \<Longrightarrow> split_on c xs = [xs]"
  by (induction xs) auto

lemma split_path_plain: "CHR ''.'' \<notin> set k \<Longrightarrow> split_path k = [k]"
  by (simp add: split_path_def split_on_plain)

lemma root_plain: "CHR ''.'' \<notin> set k \<Longrightarrow> root k = k"
  using hd_split_path[of k] by (simp add: split_path_plain)

lemma set_path_document:
  assumes "set_path (s # rest) v (BDocument fs) = Inr y"
  shows "\<exists>fs1. y = BDocument fs1 \<and> (\<forall>k. k \<noteq> s \<longrightarrow> map_of fs1 k = map_of fs k)"
  using assms
  by (auto simp: AList.update_conv' map_add_def split: if_splits option.splits sum.splits)

lemma apply_set_frame:
  assumes "apply_set (k, v) d = Inr d1" and "f \<noteq> root k"
  shows "map_of d1 f = map_of d f"
proof -
  obtain rest where sp: "split_path k = root k # rest"
    using split_path_cons by blast
  show ?thesis
  proof (cases "root k = ''_id''")
    case True
    then show ?thesis using assms(1) by (auto simp: apply_set_def Let_def split: if_splits)
  next
    case False
    then obtain y where y: "set_path (root k # rest) v (BDocument d) = Inr y" and yd: "y = BDocument d1"
      using assms(1) sp
      by (auto simp: apply_set_def Let_def split: if_splits sum.splits bson.splits)
    from set_path_document[OF y] yd assms(2) show ?thesis by auto
  qed
qed

lemma apply_set_id:
  assumes "apply_set (k, v) d = Inr d1"
  shows "map_of d1 ''_id'' = map_of d ''_id''"
proof (cases "root k = ''_id''")
  case True
  then show ?thesis using assms by (auto simp: apply_set_def Let_def split: if_splits)
next
  case False
  then show ?thesis using apply_set_frame[OF assms, of "''_id''"] by simp
qed

lemma apply_sets_frame:
  "apply_sets kvs d = Inr d1 \<Longrightarrow> f \<notin> root ` fst ` set kvs \<Longrightarrow> map_of d1 f = map_of d f"
proof (induction kvs arbitrary: d)
  case Nil
  then show ?case by simp
next
  case (Cons kv kvs)
  obtain k v where kv: "kv = (k, v)" by (cases kv)
  from Cons.prems(1) obtain d0 where a: "apply_set (k, v) d = Inr d0" and b: "apply_sets kvs d0 = Inr d1"
    by (auto simp: kv split: sum.splits)
  have "map_of d0 f = map_of d f"
    using apply_set_frame[OF a] Cons.prems(2) by (auto simp: kv)
  moreover have "map_of d1 f = map_of d0 f"
    using Cons.IH[OF b] Cons.prems(2) by auto
  ultimately show ?case by simp
qed

lemma apply_sets_id:
  "apply_sets kvs d = Inr d1 \<Longrightarrow> map_of d1 ''_id'' = map_of d ''_id''"
proof (induction kvs arbitrary: d)
  case Nil
  then show ?case by simp
next
  case (Cons kv kvs)
  obtain k v where kv: "kv = (k, v)" by (cases kv)
  from Cons.prems obtain d0 where a: "apply_set (k, v) d = Inr d0" and b: "apply_sets kvs d0 = Inr d1"
    by (auto simp: kv split: sum.splits)
  show ?case using apply_set_id[OF a] Cons.IH[OF b] by simp
qed

lemma apply_set_plain:
  assumes "apply_set (k, v) d = Inr d1" and "CHR ''.'' \<notin> set k"
  shows "map_of d1 k = Some v"
  using assms
  by (auto simp: apply_set_def Let_def split_path_plain root_plain AList.update_conv' map_add_def
      split: if_splits option.splits sum.splits bson.splits)

lemma no_conflict_root:
  assumes "CHR ''.'' \<notin> set k" and "\<not> is_prefix (split_path k) (split_path k')"
  shows "root k' \<noteq> k"
proof
  assume "root k' = k"
  then obtain rest where "split_path k' = k # rest"
    using split_path_cons[of k'] by auto
  then show False using assms by (simp add: split_path_plain is_prefix_def)
qed

lemma apply_sets_plain:
  assumes "apply_sets kvs d = Inr d1" and "no_conflict (map (split_path \<circ> fst) kvs)"
    and "(k, v) \<in> set kvs" and "CHR ''.'' \<notin> set k"
  shows "map_of d1 k = Some v"
  using assms(1,2,3)
proof (induction kvs arbitrary: d)
  case Nil
  then show ?case by simp
next
  case (Cons kv kvs)
  obtain k0 v0 where kv: "kv = (k0, v0)" by (cases kv)
  from Cons.prems(1) obtain d0 where a: "apply_set (k0, v0) d = Inr d0" and b: "apply_sets kvs d0 = Inr d1"
    by (auto simp: kv split: sum.splits)
  have nc: "list_all (\<lambda>q. \<not> is_prefix (split_path k0) q \<and> \<not> is_prefix q (split_path k0))
      (map (split_path \<circ> fst) kvs)" and nc': "no_conflict (map (split_path \<circ> fst) kvs)"
    using Cons.prems(2) by (simp_all add: kv comp_def)
  show ?case
  proof (cases "(k, v) = (k0, v0)")
    case True
    then have one: "map_of d0 k = Some v" using apply_set_plain[OF a] assms(4) by simp
    have "k \<notin> root ` fst ` set kvs"
    proof
      assume "k \<in> root ` fst ` set kvs"
      then obtain k' v' where in': "(k', v') \<in> set kvs" and r: "root k' = k" by auto
      have "\<not> is_prefix (split_path k0) (split_path k')"
        using nc in' by (auto simp: list_all_iff)
      then show False using no_conflict_root[OF assms(4), of k'] True r by simp
    qed
    then show ?thesis using apply_sets_frame[OF b] one by simp
  next
    case False
    then have "(k, v) \<in> set kvs" using Cons.prems(3) by (auto simp: kv)
    then show ?thesis using Cons.IH[OF b nc'] by simp
  qed
qed

lemma check_set_None:
  "check_set ks = None \<Longrightarrow> no_conflict (map split_path ks)"
  by (auto simp: check_set_def split: list.splits if_splits)

subsection \<open>\<open>UpdateByID\<close>\<close>

lemma UpdateByID_cases:
  obtains (err) err w1 where "UpdateByID w oid b0 = (Some err, w1)" "users w1 = users w"
  | (nomatch) kvs where "b0 = Some kvs" "valid_set kvs" "find (has_id oid) (users w) = None"
      "UpdateByID w oid b0 = (None, sent (CallUpdateByID oid) w)"
  | (match) kvs d d1 where "b0 = Some kvs" "valid_set kvs" "find (has_id oid) (users w) = Some d"
      "apply_sets (map (map_prod id encode) kvs) d = Inr d1"
      "UpdateByID w oid b0 =
         (None, (sent (CallUpdateByID oid) w)\<lparr>users := update_first (has_id oid) (\<lambda>_. d1) (users w)\<rparr>)"
proof (cases "UpdateByID w oid b0")
  case (Pair res w1)
  show thesis
  proof (cases res)
    case (Some e)
    have "users w1 = users w"
      using Pair Some
      by (auto simp: UpdateByID_def Let_def sent_def split: if_splits option.splits sum.splits)
    then show thesis using err Pair Some by simp
  next
    case None
    then obtain kvs where b: "b0 = Some kvs" and nk: "null_keys (GMapAny kvs) = []"
      and up: "up w" and cs: "check_set (map fst kvs) = None"
      using Pair
      by (cases b0) (auto simp: UpdateByID_def Let_def sent_def split: if_splits option.splits sum.splits)
    have vs: "valid_set kvs" using nk cs by (simp add: valid_set_def)
    show thesis
    proof (cases "find (has_id oid) (users w)")
      case None
      then show thesis using nomatch[OF b vs None] b nk up cs
        by (simp add: UpdateByID_def Let_def sent_def)
    next
      case (Some d)
      then obtain d1 where ap: "apply_sets (map (map_prod id encode) kvs) d = Inr d1"
        using Pair \<open>res = None\<close> b nk up cs
        by (auto simp: UpdateByID_def Let_def sent_def split: sum.splits)
      show thesis using match[OF b vs Some ap] b nk up cs Some ap
        by (simp add: UpdateByID_def Let_def sent_def)
    qed
  qed
qed

section \<open>The example states\<close>

lemma NewObjectID_world_empty:
  "NewObjectID world_empty = (oid_ann, world_empty\<lparr>objectIDCounter := 42\<rparr>)"
  by (simp add: NewObjectID_def world_empty_def oid_ann_def Let_def)

lemma Hex_oid_ann: "Hex oid_ann = id_ann"
  by (simp add: Hex_def oid_ann_def id_ann_def hextable_def)

lemma ObjectIDFromHex_id_ann: "ObjectIDFromHex id_ann = Inr oid_ann"
  by (simp add: ObjectIDFromHex_def id_ann_def oid_ann_def fromHexChar_def)

lemma create_big:
  "createUser world_empty (Inr user_big) =
     (writeJSON StatusCreated (MapStringString [(''id'', id_ann)]), world_big)"
  by (simp add: createUser_def user_big_def IsZero_def unixToInternal_def Marshal_User_def
      NilObjectID_def InsertOne_def NewObjectID_world_empty fitsIn32Bits_def sent_def Let_def
      UTC_def NewDateTimeFromTime_def wrap64_def quo_def Hex_oid_ann world_big_def doc_big_def)
     (simp add: world_empty_def)

lemma getUser_big:
  "getUser world_big (''/users/'' @ id_ann) =
     (writeJSON StatusOK (MapStringAny (getUser_resp 3600 (\<lambda>k. map_option decode (map_of (rev doc_big) k)))),
      sent (CallFindOne oid_ann) world_big)"
  by (simp add: getUser_def ObjectIDFromHex_id_ann FindOne_def sent_def Let_def world_big_def
      world_empty_def has_id_def doc_big_def Decode_def)

section \<open>The calendar\<close>

lemma div_bounds:
  fixes a b :: int
  assumes "0 < b"
  shows "b * (a div b) \<le> a" and "a < b * (a div b) + b"
proof -
  have "a - b * (a div b) = a mod b"
    by (simp add: minus_mult_div_eq_mod)
  moreover have "0 \<le> a mod b" "a mod b < b"
    using assms by simp_all
  ultimately show "b * (a div b) \<le> a" and "a < b * (a div b) + b"
    by linarith+
qed

lemma small_cases5:
  fixes k :: int
  assumes "0 \<le> k" "k \<le> 4"
  shows "k = 0 \<or> k = 1 \<or> k = 2 \<or> k = 3 \<or> k = 4"
  using assms by arith

lemma cap3:
  fixes k :: int
  assumes "0 \<le> k" "k \<le> 4"
  shows "k - k div 4 = (if k = 4 then 3 else k)"
  using small_cases5[OF assms] by auto

lemma absYear_decomp:
  obtains n400 n100 n4 n1 yd where
    "absYear d = (400 * n400 + 100 * n100 + 4 * n4 + n1 + 1, yd)"
    "d = 146097 * n400 + 36524 * n100 + 1461 * n4 + 365 * n1 + yd"
    "0 \<le> n100" "n100 \<le> 3" "0 \<le> n4" "n4 \<le> 24" "0 \<le> n1" "n1 \<le> 3" "0 \<le> yd" "yd \<le> 365"
    "n1 < 3 \<Longrightarrow> yd \<le> 364"
    "n4 = 24 \<Longrightarrow> yd = 365 \<Longrightarrow> n100 = 3"
proof -
  define n400 where "n400 = d div 146097"
  define d1 where "d1 = d - 146097 * n400"
  define c where "c = d1 div 36524"
  define n100 where "n100 = c - c div 4"
  define d2 where "d2 = d1 - 36524 * n100"
  define n4 where "n4 = d2 div 1461"
  define d3 where "d3 = d2 - 1461 * n4"
  define k where "k = d3 div 365"
  define n1 where "n1 = k - k div 4"
  define yd where "yd = d3 - 365 * n1"
  have d1: "0 \<le> d1" "d1 < 146097"
    using div_bounds[of 146097 d] by (simp_all add: d1_def n400_def)
  have c: "36524 * c \<le> d1" "d1 < 36524 * c + 36524"
    using div_bounds[of 36524 d1] by (simp_all add: c_def)
  have c_range: "0 \<le> c" "c \<le> 4"
    using d1 c by linarith+
  have n100: "n100 = (if c = 4 then 3 else c)"
    unfolding n100_def by (rule cap3[OF c_range])
  have d2: "0 \<le> d2" "d2 \<le> 36524" "d2 = 36524 \<Longrightarrow> n100 = 3"
    using d1 c c_range n100 by (auto simp: d2_def split: if_splits)
  have n4: "1461 * n4 \<le> d2" "d2 < 1461 * n4 + 1461"
    using div_bounds[of 1461 d2] by (simp_all add: n4_def)
  have n4_range: "0 \<le> n4" "n4 \<le> 24"
    using d2 n4 by linarith+
  have d3: "0 \<le> d3" "d3 < 1461"
    using n4 by (simp_all add: d3_def)
  have k: "365 * k \<le> d3" "d3 < 365 * k + 365"
    using div_bounds[of 365 d3] by (simp_all add: k_def)
  have k_range: "0 \<le> k" "k \<le> 4"
    using d3 k by linarith+
  have n1: "n1 = (if k = 4 then 3 else k)"
    unfolding n1_def by (rule cap3[OF k_range])
  have yd: "0 \<le> yd" "yd \<le> 365" "n1 < 3 \<Longrightarrow> yd \<le> 364"
    using d3 k k_range n1 by (auto simp: yd_def split: if_splits)
  have last: "n100 = 3" if "n4 = 24" "yd = 365"
  proof -
    have "d3 = 1460" using that(2) d3 n1 k k_range by (auto simp: yd_def split: if_splits)
    then have "d2 = 36524" using that(1) by (simp add: d3_def)
    then show ?thesis by (rule d2(3))
  qed
  have eq: "absYear d = (400 * n400 + 100 * n100 + 4 * n4 + n1 + 1, yd)"
    by (simp add: absYear_def Let_def n400_def d1_def c_def n100_def d2_def n4_def d3_def
        k_def n1_def yd_def)
  have sum: "d = 146097 * n400 + 36524 * n100 + 1461 * n4 + 365 * n1 + yd"
    by (simp add: yd_def d3_def d2_def d1_def)
  have n100_range: "0 \<le> n100" "n100 \<le> 3"
    using n100 c_range by (auto split: if_splits)
  have n1_range: "0 \<le> n1" "n1 \<le> 3"
    using n1 k_range by (auto split: if_splits)
  show thesis
    using that[OF eq sum n100_range n4_range n1_range yd(1,2)] yd(3) last by blast
qed

lemma absYear_yday:
  assumes "absYear d = (y, yd)"
  shows "0 \<le> yd" and "yd \<le> 365" and "yd = 365 \<Longrightarrow> isLeap y"
proof -
  obtain n400 n100 n4 n1 yd' where
    eq: "absYear d = (400 * n400 + 100 * n100 + 4 * n4 + n1 + 1, yd')"
    and r: "0 \<le> n100" "n100 \<le> 3" "0 \<le> n4" "n4 \<le> 24" "0 \<le> n1" "n1 \<le> 3" "0 \<le> yd'" "yd' \<le> 365"
    and s: "n1 < 3 \<Longrightarrow> yd' \<le> 364" "n4 = 24 \<Longrightarrow> yd' = 365 \<Longrightarrow> n100 = 3"
    by (rule absYear_decomp[of d]) blast
  have y: "y = 400 * n400 + 100 * n100 + 4 * n4 + n1 + 1" and yd: "yd = yd'"
    using assms eq by simp_all
  show "0 \<le> yd" "yd \<le> 365" using r yd by simp_all
  show "isLeap y" if "yd = 365"
  proof -
    have n1: "n1 = 3" using s(1) that yd r by linarith
    have y4: "y = 4 * (100 * n400 + 25 * n100 + n4 + 1)" using y n1 by simp
    have m4: "y mod 4 = 0" unfolding y4 by simp
    show ?thesis
    proof (cases "n4 = 24")
      case True
      then have "n100 = 3" using s(2) that yd by simp
      then have "y = 400 * (n400 + 1)" using y n1 True by simp
      then have "y mod 400 = 0" by simp
      with m4 show ?thesis by (simp add: isLeap_def)
    next
      case False
      then have b: "4 \<le> 4 * n4 + 4" "4 * n4 + 4 < 100" using r by linarith+
      have "y = (4 * n4 + 4) + 100 * (4 * n400 + n100)" using y n1 by simp
      then have "y mod 100 = (4 * n4 + 4) mod 100" by (simp only: mod_mult_self2)
      also have "\<dots> = 4 * n4 + 4" using b by simp
      finally have "y mod 100 \<noteq> 0" using b by simp
      with m4 show ?thesis by (simp add: isLeap_def)
    qed
  qed
qed

lemma absYear_year_range:
  assumes "absYear d = (y, yd)" and "- 366 \<le> d" and "d \<le> 3652058"
  shows "0 \<le> y" and "y \<le> 9999"
proof -
  obtain n400 n100 n4 n1 yd' where
    eq: "absYear d = (400 * n400 + 100 * n100 + 4 * n4 + n1 + 1, yd')"
    and sum: "d = 146097 * n400 + 36524 * n100 + 1461 * n4 + 365 * n1 + yd'"
    and r: "0 \<le> n100" "n100 \<le> 3" "0 \<le> n4" "n4 \<le> 24" "0 \<le> n1" "n1 \<le> 3" "0 \<le> yd'" "yd' \<le> 365"
    and s: "n1 < 3 \<Longrightarrow> yd' \<le> 364"
    by (rule absYear_decomp[of d]) blast
  have y: "y = 400 * n400 + 100 * n100 + 4 * n4 + n1 + 1"
    using assms(1) eq by simp
  have lo: "- 1 \<le> n400" using sum assms(2) r by linarith
  have hi: "n400 \<le> 24" using sum assms(3) r by linarith
  show "0 \<le> y"
  proof (cases "n400 = - 1")
    case True
    have a: "n100 = 3" using sum assms(2) r True by linarith
    have b: "n4 = 24" using sum assms(2) r True a by linarith
    have c: "n1 = 3" using sum assms(2) r True a b s by linarith
    show ?thesis using y True a b c by simp
  next
    case False
    then show ?thesis using lo y r by linarith
  qed
  show "y \<le> 9999"
  proof (cases "n400 = 24")
    case True
    have "\<not> (n100 = 3 \<and> n4 = 24 \<and> n1 = 3)" using sum assms(3) r True by linarith
    then show ?thesis using y True r by linarith
  next
    case False
    then show ?thesis using hi y r by linarith
  qed
qed

lemma month_table:
  fixes day :: int
  assumes "0 \<le> day" "day \<le> 364"
  defines "m0 \<equiv> day div 31"
  defines "e \<equiv> daysBefore ! nat (m0 + 1)"
  defines "r \<equiv> (if day \<ge> e then (m0 + 2, day - e + 1) else (m0 + 1, day - daysBefore ! nat m0 + 1))"
  shows "1 \<le> fst r \<and> fst r \<le> 12 \<and> 1 \<le> snd r
         \<and> snd r \<le> daysBefore ! nat (fst r) - daysBefore ! nat (fst r - 1)
         \<and> (fst r = 2 \<longrightarrow> day < 59)"
proof -
  have b: "31 * m0 \<le> day" "day < 31 * m0 + 31"
    using div_bounds[of 31 day] by (simp_all add: m0_def)
  have "0 \<le> m0" "m0 \<le> 11" using b assms(1,2) by linarith+
  then have "m0 = 0 \<or> m0 = 1 \<or> m0 = 2 \<or> m0 = 3 \<or> m0 = 4 \<or> m0 = 5 \<or> m0 = 6 \<or> m0 = 7
      \<or> m0 = 8 \<or> m0 = 9 \<or> m0 = 10 \<or> m0 = 11"
    by arith
  then show ?thesis
    using b assms(1,2)
    by (elim disjE) (simp_all add: r_def e_def daysBefore_def)
qed

lemma monthDay_valid:
  assumes "0 \<le> yd" "yd \<le> 365" "yd = 365 \<Longrightarrow> isLeap y" "monthDay y yd = (m, dd)"
  shows "1 \<le> m \<and> m \<le> 12 \<and> 1 \<le> dd \<and> dd \<le> daysIn m y"
proof (cases "isLeap y \<and> yd = 59")
  case True
  then show ?thesis using assms(4) by (simp add: monthDay_def daysIn_def)
next
  case False
  define day where "day = (if isLeap y \<and> yd > 59 then yd - 1 else yd)"
  have leap365: "yd \<noteq> 365 \<or> isLeap y"
    using assms(3) by blast
  have day: "0 \<le> day" "day \<le> 364"
    using assms(1,2) leap365 by (auto simp: day_def)
  have leapday: "isLeap y \<Longrightarrow> \<not> day < 59 \<or> yd < 59"
    using False by (auto simp: day_def)
  define r where "r = (if day \<ge> daysBefore ! nat (day div 31 + 1)
       then (day div 31 + 2, day - daysBefore ! nat (day div 31 + 1) + 1)
       else (day div 31 + 1, day - daysBefore ! nat (day div 31) + 1))"
  have r: "monthDay y yd = r"
    using False by (auto simp add: monthDay_def Let_def r_def day_def)
  have t: "1 \<le> fst r \<and> fst r \<le> 12 \<and> 1 \<le> snd r
         \<and> snd r \<le> daysBefore ! nat (fst r) - daysBefore ! nat (fst r - 1)
         \<and> (fst r = 2 \<longrightarrow> day < 59)"
    unfolding r_def by (rule month_table[OF day])
  have mr: "m = fst r" "dd = snd r" using assms(4) r by simp_all
  have "dd \<le> daysIn m y"
  proof (cases "m = 2 \<and> isLeap y")
    case True
    then have "snd r \<le> 28" using t mr by (simp add: daysBefore_def)
    then show ?thesis using True mr by (simp add: daysIn_def)
  next
    case False
    then show ?thesis using t mr by (auto simp: daysIn_def)
  qed
  then show ?thesis using t mr by simp
qed

lemma clock_ranges:
  fixes s :: int
  shows "0 \<le> s mod 86400 div 3600 \<and> s mod 86400 div 3600 \<le> 23"
    and "0 \<le> s mod 3600 div 60 \<and> s mod 3600 div 60 \<le> 59"
    and "0 \<le> s mod 60 \<and> s mod 60 \<le> 59"
proof -
  have a: "0 \<le> s mod 86400" "s mod 86400 < 86400" by simp_all
  show "0 \<le> s mod 86400 div 3600 \<and> s mod 86400 div 3600 \<le> 23"
    using a div_bounds[of 3600 "s mod 86400"] by linarith
  have b: "0 \<le> s mod 3600" "s mod 3600 < 3600" by simp_all
  show "0 \<le> s mod 3600 div 60 \<and> s mod 3600 div 60 \<le> 59"
    using b div_bounds[of 60 "s mod 3600"] by linarith
  have c: "0 \<le> s mod 60" "s mod 60 < 60" by simp_all
  then show "0 \<le> s mod 60 \<and> s mod 60 \<le> 59" by linarith
qed

section \<open>Updates of the example states\<close>

lemmas eval_paths =
  check_set_def check_path_def split_path_def is_array_filter_def List.map_filter_def
  is_prefix_def apply_set_def root_def AList.update_def Let_def

lemma UpdateByID_city:
  "UpdateByID world_addr oid_ann (Some body_city) =
     (None, (sent (CallUpdateByID oid_ann) world_addr)\<lparr>users := [doc_city]\<rparr>)"
  by (simp add: UpdateByID_def body_city_def eval_paths sent_def world_addr_def world_empty_def
      has_id_def doc_addr_def doc_city_def)

lemma UpdateByID_mixed:
  "UpdateByID world_addr oid_ann (Some (AList.delete ''id'' body_mixed)) =
     (None, (sent (CallUpdateByID oid_ann) world_addr)\<lparr>users := [doc_mixed]\<rparr>)"
  by (simp add: UpdateByID_def body_mixed_def AList.delete_eq eval_paths sent_def world_addr_def
      world_empty_def has_id_def doc_addr_def doc_mixed_def)

lemma update_city:
  "updateUser world_addr (''/users/'' @ id_ann) (Inr (Some body_city)) =
     (writeJSON StatusOK (MapStringString [(''id'', id_ann)]),
      (sent (CallUpdateByID oid_ann) world_addr)\<lparr>users := [doc_city]\<rparr>)"
proof -
  have "AList.delete ''id'' body_city = body_city"
    by (simp add: body_city_def AList.delete_eq)
  then show ?thesis
    by (simp add: updateUser_def ObjectIDFromHex_id_ann UpdateByID_city Hex_oid_ann)
qed

lemma update_mixed:
  "updateUser world_addr (''/users/'' @ id_ann) (Inr (Some body_mixed)) =
     (writeJSON StatusOK (MapStringString [(''id'', id_ann)]),
      (sent (CallUpdateByID oid_ann) world_addr)\<lparr>users := [doc_mixed]\<rparr>)"
  by (simp add: updateUser_def ObjectIDFromHex_id_ann UpdateByID_mixed Hex_oid_ann)

section \<open>Formatting a time\<close>

lemma of_char_digit:
  assumes "0 \<le> k" "k \<le> 9"
  shows "(of_char (digit k) :: int) = 48 + k"
  using assms by (simp add: digit_def)

lemma isDigit_digit: "0 \<le> k \<Longrightarrow> k \<le> 9 \<Longrightarrow> isDigit (digit k)"
  by (simp add: isDigit_def of_char_digit)

lemma zero_digit: "CHR ''0'' = digit 0"
  by (simp add: digit_def char_of_def)

lemma replicate_2: "replicate 2 x = [x, x]"
  by (simp add: numeral_2_eq_2)

lemma replicate_3: "replicate 3 x = [x, x, x]"
  by (simp add: numeral_3_eq_3)

lemma itoa_1: "n < 10 \<Longrightarrow> itoa n = [digit (int n)]"
  by (simp add: itoa.simps)

lemma itoa_2: "10 \<le> n \<Longrightarrow> n < 100 \<Longrightarrow> itoa n = [digit (int (n div 10)), digit (int (n mod 10))]"
  by (subst itoa.simps) (simp add: itoa_1)

lemma itoa_3:
  "100 \<le> n \<Longrightarrow> n < 1000 \<Longrightarrow>
     itoa n = [digit (int (n div 100)), digit (int (n div 10 mod 10)), digit (int (n mod 10))]"
  by (subst itoa.simps) (simp add: itoa_2 div_mult2_eq[symmetric])

lemma itoa_4:
  "1000 \<le> n \<Longrightarrow> n < 10000 \<Longrightarrow>
     itoa n = [digit (int (n div 1000)), digit (int (n div 100 mod 10)),
               digit (int (n div 10 mod 10)), digit (int (n mod 10))]"
  by (subst itoa.simps) (simp add: itoa_3 div_mult2_eq[symmetric])


lemma atoi_digits2:
  assumes "0 \<le> p" "p \<le> 9" "0 \<le> q" "q \<le> 9"
  shows "atoi [digit p, digit q] = 10 * p + q"
  using assms by (simp add: atoi_def of_char_digit)

lemma atoi_digits4:
  assumes "0 \<le> p" "p \<le> 9" "0 \<le> q" "q \<le> 9" "0 \<le> u" "u \<le> 9" "0 \<le> v" "v \<le> 9"
  shows "atoi [digit p, digit q, digit u, digit v] = 1000 * p + 100 * q + 10 * u + v"
  using assms by (simp add: atoi_def of_char_digit)

lemma digits_2:
  assumes "0 \<le> x" "x < 100"
  shows "\<exists>a b. appendInt x 2 = [a, b] \<and> isDigit a \<and> isDigit b \<and> atoi [a, b] = x"
proof -
  define n where "n = nat x"
  have x: "x = int n" and n: "n < 100" using assms by (simp_all add: n_def)
  have r: "0 \<le> x div 10" "x div 10 \<le> 9" "0 \<le> x mod 10" "x mod 10 \<le> 9"
    using assms div_bounds[of 10 x] by simp_all
  have "appendInt x 2 = [digit (x div 10), digit (x mod 10)]"
  proof (cases "n < 10")
    case True
    then show ?thesis
      by (simp add: appendInt_def x itoa_1 zero_digit)
  next
    case False
    then show ?thesis using n
      by (simp add: appendInt_def x itoa_2 zdiv_int zmod_int)
  qed
  moreover have "atoi [digit (x div 10), digit (x mod 10)] = x"
  proof -
    have "atoi [digit (x div 10), digit (x mod 10)] = 10 * (x div 10) + x mod 10"
      using r by (intro atoi_digits2) simp_all
    then show ?thesis by simp
  qed
  ultimately show ?thesis
    using isDigit_digit[OF r(1,2)] isDigit_digit[OF r(3,4)] by blast
qed

lemma digits_4:
  assumes "0 \<le> x" "x < 10000"
  shows "\<exists>a b c d. appendInt x 4 = [a, b, c, d] \<and> isDigit a \<and> isDigit b \<and> isDigit c \<and> isDigit d
           \<and> atoi [a, b, c, d] = x"
proof -
  define n where "n = nat x"
  have x: "x = int n" and n: "n < 10000" using assms by (simp_all add: n_def)
  define h where "h = x div 100"
  define l where "l = x mod 100"
  have hl: "x = 100 * h + l" by (simp add: h_def l_def)
  have hr: "0 \<le> h" "h < 100" using assms div_bounds[of 100 x] by (simp_all add: h_def)
  have lr: "0 \<le> l" "l < 100" by (simp_all add: l_def)
  have r: "0 \<le> h div 10" "h div 10 \<le> 9" "0 \<le> h mod 10" "h mod 10 \<le> 9"
    "0 \<le> l div 10" "l div 10 \<le> 9" "0 \<le> l mod 10" "l mod 10 \<le> 9"
    using hr lr div_bounds[of 10 h] div_bounds[of 10 l] by simp_all
  have e: "x div 1000 = h div 10" "x div 100 mod 10 = h mod 10"
    "x div 10 mod 10 = l div 10" "x mod 10 = l mod 10"
  proof -
    have "x div 1000 = x div (100 * 10)" by simp
    also have "\<dots> = x div 100 div 10" by (rule zdiv_zmult2_eq) simp
    finally show "x div 1000 = h div 10" by (simp only: h_def)
    show "x div 100 mod 10 = h mod 10" by (simp only: h_def)
    have "x = l + 10 * (10 * h)" using hl by simp
    then have "x div 10 = (l + 10 * (10 * h)) div 10" by (rule arg_cong)
    also have "\<dots> = 10 * h + l div 10" by simp
    finally have "x div 10 mod 10 = (l div 10 + 10 * h) mod 10" by (simp only: add.commute)
    also have "\<dots> = l div 10 mod 10" by (simp only: mod_mult_self2)
    also have "\<dots> = l div 10" using r(5,6) by simp
    finally show "x div 10 mod 10 = l div 10" .
    show "x mod 10 = l mod 10" by (simp add: l_def mod_mod_cancel)
  qed
  have "appendInt x 4 = [digit (x div 1000), digit (x div 100 mod 10), digit (x div 10 mod 10),
      digit (x mod 10)]"
  proof -
    consider "n < 10" | "10 \<le> n \<and> n < 100" | "100 \<le> n \<and> n < 1000" | "1000 \<le> n" by linarith
    then show ?thesis
    proof cases
      case 1
      then have z: "int n div 10 = 0" "int n div 100 = 0" "int n div 1000 = 0" by simp_all
      show ?thesis using 1
        by (simp add: appendInt_def x itoa_1 zero_digit replicate_3 z)
    next
      case 2
      then have "int n div 10 < 10" "0 \<le> int n div 10"
        using div_bounds[of 10 "int n"] by linarith+
      then have e: "int n div 10 mod 10 = int n div 10" by simp
      have z: "int n div 100 = 0" "int n div 1000 = 0" using 2 by simp_all
      show ?thesis using 2
        by (simp add: appendInt_def x itoa_2 zero_digit replicate_2 zdiv_int zmod_int e z)
    next
      case 3
      then have "int n div 100 < 10" "0 \<le> int n div 100"
        using div_bounds[of 100 "int n"] by linarith+
      then have e: "int n div 100 mod 10 = int n div 100" by simp
      have z: "int n div 1000 = 0" using 3 by simp
      show ?thesis using 3
        by (simp add: appendInt_def x itoa_3 zero_digit zdiv_int zmod_int e z)
    next
      case 4
      then show ?thesis using n
        by (simp add: appendInt_def x itoa_4 zdiv_int zmod_int)
    qed
  qed
  then have a: "appendInt x 4 = [digit (h div 10), digit (h mod 10), digit (l div 10), digit (l mod 10)]"
    by (simp only: e)
  have hh: "10 * (h div 10) + h mod 10 = h" and ll: "10 * (l div 10) + l mod 10 = l"
    by simp_all
  have "atoi [digit (h div 10), digit (h mod 10), digit (l div 10), digit (l mod 10)]
      = 1000 * (h div 10) + 100 * (h mod 10) + 10 * (l div 10) + l mod 10"
    using r by (intro atoi_digits4) simp_all
  also have "\<dots> = x" using hh ll hl by linarith
  finally have at: "atoi [digit (h div 10), digit (h mod 10), digit (l div 10), digit (l mod 10)] = x" .
  show ?thesis
  proof (intro exI conjI)
    show "appendInt x 4 = [digit (h div 10), digit (h mod 10), digit (l div 10), digit (l mod 10)]"
      by (rule a)
    show "isDigit (digit (h div 10))" using r by (intro isDigit_digit)
    show "isDigit (digit (h mod 10))" using r by (intro isDigit_digit)
    show "isDigit (digit (l div 10))" using r by (intro isDigit_digit)
    show "isDigit (digit (l mod 10))" using r by (intro isDigit_digit)
    show "atoi [digit (h div 10), digit (h mod 10), digit (l div 10), digit (l mod 10)] = x"
      by (rule at)
  qed
qed

lemma daysIn_le_31: "1 \<le> m \<Longrightarrow> m \<le> 12 \<Longrightarrow> daysIn m y \<le> 31"
proof -
  assume "1 \<le> m" "m \<le> 12"
  then have "m = 1 \<or> m = 2 \<or> m = 3 \<or> m = 4 \<or> m = 5 \<or> m = 6 \<or> m = 7 \<or> m = 8 \<or> m = 9
      \<or> m = 10 \<or> m = 11 \<or> m = 12" by arith
  then show ?thesis
    by (elim disjE) (simp_all add: daysIn_def daysBefore_def)
qed

lemma valid_fields:
  assumes "0 \<le> y" "y \<le> 9999" "1 \<le> m" "m \<le> 12" "1 \<le> dd" "dd \<le> daysIn m y"
    and "0 \<le> h" "h \<le> 23" "0 \<le> mi" "mi \<le> 59" "0 \<le> s" "s \<le> 59"
  shows "valid_rfc3339_utc
           (appendInt y 4 @ ''-'' @ appendInt m 2 @ ''-'' @ appendInt dd 2 @ ''T''
            @ appendInt h 2 @ '':'' @ appendInt mi 2 @ '':'' @ appendInt s 2 @ ''Z'')"
proof -
  have dd31: "dd \<le> 31" using daysIn_le_31[of m y] assms by linarith
  obtain y1 y2 y3 y4 where y: "appendInt y 4 = [y1, y2, y3, y4]"
    "isDigit y1" "isDigit y2" "isDigit y3" "isDigit y4" "atoi [y1, y2, y3, y4] = y"
    using digits_4[of y] assms by auto
  obtain m1 m2 where m: "appendInt m 2 = [m1, m2]" "isDigit m1" "isDigit m2" "atoi [m1, m2] = m"
    using digits_2[of m] assms by auto
  obtain d1 d2 where d: "appendInt dd 2 = [d1, d2]" "isDigit d1" "isDigit d2" "atoi [d1, d2] = dd"
    using digits_2[of dd] assms dd31 by auto
  obtain h1 h2 where h: "appendInt h 2 = [h1, h2]" "isDigit h1" "isDigit h2" "atoi [h1, h2] = h"
    using digits_2[of h] assms by auto
  obtain i1 i2 where i: "appendInt mi 2 = [i1, i2]" "isDigit i1" "isDigit i2" "atoi [i1, i2] = mi"
    using digits_2[of mi] assms by auto
  obtain s1 s2 where s: "appendInt s 2 = [s1, s2]" "isDigit s1" "isDigit s2" "atoi [s1, s2] = s"
    using digits_2[of s] assms by auto
  show ?thesis
    unfolding y(1) m(1) d(1) h(1) i(1) s(1)
    using y(2-) m(2-) d(2-) h(2-) i(2-) s(2-) assms
    by (simp add: valid_rfc3339_utc_def)
qed

lemma Format_RFC3339_valid:
  assumes "zone t = 0" and "- 62167219200 \<le> unix t" and "unix t \<le> 253402300799"
  shows "valid_rfc3339_utc (Format_RFC3339 t)"
proof -
  define s where "s = absSeconds t"
  define d where "d = s div 86400"
  have s: "- 31622400 \<le> s" "s \<le> 315537897599"
    using assms by (simp_all add: s_def absSeconds_def unixToInternal_def)
  have d: "- 366 \<le> d" "d \<le> 3652058"
    using s div_bounds[of 86400 s] by (simp_all add: d_def)
  obtain y yd where ay: "absYear d = (y, yd)" by (cases "absYear d")
  obtain m dd where md: "monthDay y yd = (m, dd)" by (cases "monthDay y yd")
  have yr: "0 \<le> y" "y \<le> 9999" using absYear_year_range[OF ay d] by simp_all
  have "1 \<le> m \<and> m \<le> 12 \<and> 1 \<le> dd \<and> dd \<le> daysIn m y"
    using absYear_yday[OF ay] md by (intro monthDay_valid) simp_all
  then have mr: "1 \<le> m" "m \<le> 12" "1 \<le> dd" "dd \<le> daysIn m y" by simp_all
  have f: "Year t = y" "Month t = m" "Day t = dd"
    using ay md by (simp_all add: Year_def Month_def Day_def s_def[symmetric] d_def[symmetric])
  have c: "0 \<le> Hour t" "Hour t \<le> 23" "0 \<le> Minute t" "Minute t \<le> 59"
    "0 \<le> Second t" "Second t \<le> 59"
    using clock_ranges[of "absSeconds t"] by (simp_all add: Hour_def Minute_def Second_def)
  have "Format_RFC3339 t =
      appendInt y 4 @ ''-'' @ appendInt m 2 @ ''-'' @ appendInt dd 2 @ ''T''
      @ appendInt (Hour t) 2 @ '':'' @ appendInt (Minute t) 2 @ '':'' @ appendInt (Second t) 2 @ ''Z''"
    using assms(1) by (simp add: Format_RFC3339_def f formatZone_def)
  then show ?thesis
    using valid_fields[OF yr mr c] by simp
qed

lemma quo_nonneg: "0 \<le> a \<Longrightarrow> 0 < b \<Longrightarrow> quo a b = a div b"
  by (cases "a = 0") (simp_all add: quo_def)

lemma DateTime_Time_unix: "unix (DateTime_Time loc d) = d div 1000"
proof (cases "0 \<le> d")
  case True
  have q: "quo d 1000 = d div 1000" using True by (simp add: quo_nonneg)
  have r: "rem d 1000 = d mod 1000" by (simp add: rem_def q minus_mult_div_eq_mod)
  have "0 \<le> d mod 1000" "d mod 1000 < 1000" by simp_all
  then have "\<not> (d mod 1000 * 1000000 < 0 \<or> 1000000000 \<le> d mod 1000 * 1000000)" by linarith
  then show ?thesis by (simp add: DateTime_Time_def time_Unix_def q r)
next
  case False
  define a where "a = - d"
  have a: "0 < a" "d = - a" using False by (simp_all add: a_def)
  define q where "q = a div 1000"
  define m where "m = a mod 1000"
  have am: "a = 1000 * q + m" by (simp add: q_def m_def)
  have mr: "0 \<le> m" "m < 1000" by (simp_all add: m_def)
  have quo: "quo d 1000 = - q" using a(1) by (simp add: quo_def q_def a(2))
  have "rem d 1000 = d + 1000 * q" unfolding rem_def quo by simp
  then have rem: "rem d 1000 = - m" using am a(2) by simp
  show ?thesis
  proof (cases "m = 0")
    case True
    have "d = 1000 * (- q)" using a am True by simp
    then have "d div 1000 = - q" by simp
    then show ?thesis using True by (simp add: DateTime_Time_def time_Unix_def quo rem)
  next
    case False
    have ns: "- m * 1000000 < 0" "- 1000000000 < - m * 1000000" using mr False by linarith+
    then have n0: "quo (- m * 1000000) 1000000000 = 0"
      by (simp add: quo_def)
    have "d = (1000 - m) + 1000 * (- q - 1)" using a am by simp
    then have "d div 1000 = (1000 - m) div 1000 + (- q - 1)" by (simp only: div_mult_self2)
    then have "d div 1000 = - q - 1" using mr False by simp
    then show ?thesis using ns n0
      by (simp add: DateTime_Time_def time_Unix_def quo rem)
  qed
qed

lemma UTC_fields: "zone (UTC t) = 0" "unix (UTC t) = unix t"
  by (simp_all add: UTC_def)

lemma Format_UTC_valid: "in_rfc3339_range t \<Longrightarrow> valid_rfc3339_utc (Format_RFC3339 (UTC t))"
  by (rule Format_RFC3339_valid) (simp_all add: in_rfc3339_range_def UTC_fields)

lemma in_range_UTC: "in_rfc3339_range (UTC t) = in_rfc3339_range t"
  by (simp add: in_rfc3339_range_def UTC_fields)

lemma resp_created_at:
  "raw ''created_at'' = Some cat \<Longrightarrow>
     getUser_resp loc raw ''created_at'' = Some (created_at_value loc cat)
     \<and> listUsers_item loc raw ''created_at'' = Some (created_at_value loc cat)"
  by (simp add: getUser_resp_def listUsers_item_def put_created_at_def Let_def)

section \<open>Malformed identifiers\<close>

text \<open>
  C6. For every request \<^verbatim>\<open>GET /users/{id}\<close> whose id is not a valid hex identifier (24
  hexadecimal digits), the response status is 400 and not 500, and no database operation
  is attempted: the state, with its record of the operations sent, is the one before.
\<close>

theorem getUser_malformed_id:
  "\<not> valid_hex_id idStr \<Longrightarrow>
     (case getUser w (''/users/'' @ idStr) of
        (r, w1) \<Rightarrow> status r = StatusBadRequest \<and> status r \<noteq> StatusInternalServerError
                    \<and> body r = Text (''invalid id'' @ [CHR 0x0A]) \<and> w1 = w)"
proof -
  assume "\<not> valid_hex_id idStr"
  then obtain err where "ObjectIDFromHex idStr = Inl err"
    using ObjectIDFromHex_Inr_iff[of idStr] by (cases "ObjectIDFromHex idStr") auto
  then show ?thesis by (simp add: getUser_def http_Error_def)
qed

theorem getUser_malformed_id_witness:
  "\<not> valid_hex_id ''not-a-valid-id''
   \<and> (case getUser world_ann ''/users/not-a-valid-id'' of
        (r, w1) \<Rightarrow> status r = StatusBadRequest \<and> status r \<noteq> StatusInternalServerError
                    \<and> body r = Text (''invalid id'' @ [CHR 0x0A]) \<and> w1 = world_ann)"
  using getUser_malformed_id [of "''not-a-valid-id''" world_ann]
  by (simp add: valid_hex_id_def)

section \<open>Identifiers that match no document\<close>

text \<open>
  C8, as stated: for every well-formed id that matches no stored document the update does
  not fail and returns 200. It fails at the body \<^verbatim>\<open>null\<close>: the nil map is sent as the
  value of \<^verbatim>\<open>$set\<close>, the store refuses it, and the handler answers 500.
\<close>

theorem unknown_id_null_body_counterexample:
  "ObjectIDFromHex id_unknown = Inr oid_unknown
   \<and> find (has_id oid_unknown) (users world_ann) = None
   \<and> up world_ann
   \<and> updateUser world_ann (''/users/'' @ id_unknown) (Inr None) =
       (http_Errorf ''update error: '' ErrModifierNotDocument StatusInternalServerError,
        sent (CallUpdateByID oid_unknown) world_ann)
   \<and> status (http_Errorf ''update error: '' ErrModifierNotDocument StatusInternalServerError)
       = StatusInternalServerError"
proof -
  have h1: "ObjectIDFromHex id_unknown = Inr oid_unknown"
    by (simp add: ObjectIDFromHex_def id_unknown_def oid_unknown_def fromHexChar_def)
  show ?thesis
    using h1
    by (simp add: updateUser_def UpdateByID_def Let_def sent_def world_ann_def world_empty_def
        doc_ann_def has_id_def oid_ann_def oid_unknown_def http_Errorf_def)
qed

text \<open>
  C8, amended: for every well-formed id that matches no stored document, while the store
  answers, the delete returns status 200 with the body \<^verbatim>\<open>{id}\<close>, not 404, and leaves the
  collection unchanged; so does the update when its body is a JSON object that, without
  its key \<^verbatim>\<open>id\<close>, the driver can encode and the store accepts as a \<^verbatim>\<open>$set\<close> document
  (\<open>valid_set\<close>).
\<close>

theorem unknown_id_update_delete:
  assumes "ObjectIDFromHex idStr = Inr oid"
    and "\<forall>d\<in>set (users w). \<not> has_id oid d"
    and "up w"
  shows "(valid_set (AList.delete ''id'' kvs) \<longrightarrow>
          (case updateUser w (''/users/'' @ idStr) (Inr (Some kvs)) of
             (r, w1) \<Rightarrow> status r = StatusOK \<and> body r = JsonStrings [(''id'', Hex oid)]
                         \<and> users w1 = users w))
       \<and> (case deleteUser w (''/users/'' @ idStr) of
            (r, w1) \<Rightarrow> status r = StatusOK \<and> body r = JsonStrings [(''id'', Hex oid)]
                        \<and> users w1 = users w)"
proof -
  have nf: "find (has_id oid) (users w) = None"
    using assms(2) by (simp add: find_None_iff_ball)
  have upd: "UpdateByID w oid (Some (AList.delete ''id'' kvs)) = (None, sent (CallUpdateByID oid) w)"
    if "valid_set (AList.delete ''id'' kvs)"
    using that assms(3) nf
    by (simp add: UpdateByID_def Let_def sent_def valid_set_def)
  have del: "DeleteOne w oid = (None, sent (CallDeleteOne oid) w)"
    using assms(2,3) delete_first_no_match[of "users w" "has_id oid"]
    by (simp add: DeleteOne_def Let_def sent_def)
  show ?thesis
    using assms(1) upd del
    by (simp add: updateUser_def deleteUser_def writeJSON_def json_Encode_def sent_def)
qed

theorem unknown_id_update_delete_witness:
  "ObjectIDFromHex id_unknown = Inr oid_unknown
   \<and> find (has_id oid_unknown) (users world_addr) = None
   \<and> up world_addr
   \<and> valid_set (AList.delete ''id'' body_mixed)
   \<and> (case updateUser world_addr (''/users/'' @ id_unknown) (Inr (Some body_mixed)) of
         (r, w1) \<Rightarrow> status r = StatusOK \<and> body r = JsonStrings [(''id'', Hex oid_unknown)]
                     \<and> users w1 = users world_addr)
   \<and> (case deleteUser world_addr (''/users/'' @ id_unknown) of
         (r, w1) \<Rightarrow> status r = StatusOK \<and> body r = JsonStrings [(''id'', Hex oid_unknown)]
                     \<and> users w1 = users world_addr)"
proof -
  have h1: "ObjectIDFromHex id_unknown = Inr oid_unknown"
    by (simp add: ObjectIDFromHex_def id_unknown_def oid_unknown_def fromHexChar_def)
  have h2: "\<forall>d\<in>set (users world_addr). \<not> has_id oid_unknown d"
    by (simp add: world_addr_def world_empty_def doc_addr_def has_id_def oid_ann_def oid_unknown_def)
  have h2': "find (has_id oid_unknown) (users world_addr) = None"
    using h2 by (simp add: find_None_iff_ball)
  have h3: "up world_addr"
    by (simp add: world_addr_def world_empty_def)
  have h4: "valid_set (AList.delete ''id'' body_mixed)"
    by (simp add: valid_set_def body_mixed_def AList.delete_eq check_set_def check_path_def
        split_path_def is_array_filter_def List.map_filter_def is_prefix_def)
  from unknown_id_update_delete [OF h1 h2 h3, of body_mixed] h1 h2' h3 h4 show ?thesis
    by simp
qed

section \<open>An update with an empty body\<close>

text \<open>
  C4. An update on a well-formed id (of an existing document, or of none) whose JSON body
  is the empty object leaves every stored document unchanged and, while the store answers,
  returns status 200.
\<close>

theorem update_empty_body:
  assumes "ObjectIDFromHex idStr = Inr oid" and "up w"
  shows "case updateUser w (''/users/'' @ idStr) (Inr (Some [])) of
           (r, w1) \<Rightarrow> status r = StatusOK \<and> body r = JsonStrings [(''id'', Hex oid)]
                       \<and> users w1 = users w"
proof -
  have "UpdateByID w oid (Some []) = (None, sent (CallUpdateByID oid) w)"
  proof (cases "find (has_id oid) (users w)")
    case None
    then show ?thesis using assms(2)
      by (simp add: UpdateByID_def Let_def sent_def check_set_def List.map_filter_def)
  next
    case (Some d)
    then show ?thesis using assms(2) update_first_same[OF Some]
      by (simp add: UpdateByID_def Let_def sent_def check_set_def List.map_filter_def)
  qed
  then show ?thesis
    using assms(1)
    by (simp add: updateUser_def writeJSON_def json_Encode_def sent_def)
qed

theorem update_empty_body_witness:
  "ObjectIDFromHex id_ann = Inr oid_ann \<and> up world_ann
   \<and> find (has_id oid_ann) (users world_ann) = Some doc_ann
   \<and> (case updateUser world_ann (''/users/'' @ id_ann) (Inr (Some [])) of
         (r, w1) \<Rightarrow> status r = StatusOK \<and> body r = JsonStrings [(''id'', Hex oid_ann)]
                     \<and> users w1 = users world_ann)"
proof -
  have h1: "ObjectIDFromHex id_ann = Inr oid_ann"
    by (simp add: ObjectIDFromHex_def id_ann_def oid_ann_def fromHexChar_def)
  have h2: "up world_ann"
    by (simp add: world_ann_def world_empty_def)
  have h3: "find (has_id oid_ann) (users world_ann) = Some doc_ann"
    by (simp add: world_ann_def world_empty_def doc_ann_def has_id_def)
  from update_empty_body [OF h1 h2] h1 h2 h3 show ?thesis
    by blast
qed

section \<open>Partial update\<close>

text \<open>
  C3, as stated: every stored field that the body does not name keeps its value. It fails
  at a body whose key has dots: the handler sends the body as it is, the store reads
  \<^verbatim>\<open>addr.city\<close> as a path, and the stored field \<^verbatim>\<open>addr\<close>, which is no key of the body,
  has another value after the update.
\<close>

theorem updateUser_dotted_counterexample:
  "updateUser world_addr (''/users/'' @ id_ann) (Inr (Some body_city)) =
     (writeJSON StatusOK (MapStringString [(''id'', id_ann)]),
      (sent (CallUpdateByID oid_ann) world_addr)\<lparr>users := [doc_city]\<rparr>)
   \<and> users world_addr = [doc_addr]
   \<and> ''addr'' \<notin> fst ` set body_city
   \<and> map_of doc_addr ''addr''
       = Some (BDocument [(''city'', BString ''Oslo''), (''street'', BString ''Storgata'')])
   \<and> map_of doc_city ''addr''
       = Some (BDocument [(''city'', BString ''Paris''), (''street'', BString ''Storgata'')])"
proof -
  have a: "users world_addr = [doc_addr]"
    by (simp add: world_addr_def world_empty_def)
  have b: "''addr'' \<notin> fst ` set body_city"
    by (simp add: body_city_def)
  have c: "map_of doc_addr ''addr''
      = Some (BDocument [(''city'', BString ''Oslo''), (''street'', BString ''Storgata'')])"
    by (simp add: doc_addr_def)
  have d: "map_of doc_city ''addr''
      = Some (BDocument [(''city'', BString ''Paris''), (''street'', BString ''Storgata'')])"
    by (simp add: doc_city_def)
  show ?thesis
    by (intro conjI) (rule update_city a b c d)+
qed

text \<open>
  C3, amended: for every update request with a valid id and a body that is a JSON object,
  a key \<^verbatim>\<open>id\<close> of the body is stripped before the write, the identifier \<^verbatim>\<open>_id\<close> is
  unchanged, documents with another identifier are untouched, and every stored top-level
  field that is not the first segment of a remaining key of the body keeps its value (a
  key with dots is a path and changes the field of its first segment). When the update
  succeeds on a stored document, that document then carries every supplied field whose key
  has no dot and is not \<^verbatim>\<open>id\<close>.
\<close>

theorem updateUser_partial:
  assumes "ObjectIDFromHex idStr = Inr oid"
  shows "case updateUser w (''/users/'' @ idStr) (Inr (Some kvs)) of
           (r, w1) \<Rightarrow>
             list_all2 (frame oid kvs) (users w) (users w1)
             \<and> (status r = StatusOK \<longrightarrow>
                  (\<forall>d. find (has_id oid) (users w) = Some d \<longrightarrow>
                     (\<exists>d1. find (has_id oid) (users w1) = Some d1
                        \<and> (\<forall>k v. k \<noteq> ''id'' \<longrightarrow> CHR ''.'' \<notin> set k \<longrightarrow> map_of kvs k = Some v
                              \<longrightarrow> map_of d1 k = Some (encode v)))))"
proof -
  let ?b = "AList.delete ''id'' kvs"
  have same: "list_all2 (frame oid kvs) (users w) (users w)"
    by (simp add: list_all2_refl frame_def)
  show ?thesis
  proof (cases rule: UpdateByID_cases[of w oid "Some ?b"])
    case (err e w1)
    then show ?thesis
      using assms same by (simp add: updateUser_def http_Errorf_def)
  next
    case (nomatch b)
    then show ?thesis
      using assms same by (simp add: updateUser_def sent_def)
  next
    case (match b d d1)
    then have b: "b = ?b" by simp
    have hd: "has_id oid d" using match(3) by (rule find_Some_holds)
    have id: "map_of d1 ''_id'' = map_of d ''_id''"
      using apply_sets_id[OF match(4)] .
    have hd1: "has_id oid d1" using hd id by (simp add: has_id_def)
    have fr: "frame oid kvs d d1"
      unfolding frame_def
    proof (intro conjI allI impI)
      show "d1 = d" if "\<not> has_id oid d" using that hd by simp
      show "map_of d1 ''_id'' = map_of d ''_id''" by (rule id)
      show "map_of d1 k = map_of d k" if "k \<notin> root ` fst ` set ?b" for k
      proof -
        have "k \<notin> root ` fst ` set (map (map_prod id encode) ?b)"
          using that by (auto simp: image_iff)
        then show ?thesis using apply_sets_frame[OF match(4)[unfolded b]] by simp
      qed
    qed
    have fr_all: "list_all2 (frame oid kvs) (users w)
        (update_first (has_id oid) (\<lambda>_. d1) (users w))"
      by (rule list_all2_update_first_found[where R = "frame oid kvs", OF _ match(3) fr])
         (simp add: frame_def)
    have found: "find (has_id oid) (update_first (has_id oid) (\<lambda>_. d1) (users w)) = Some d1"
      using match(3) hd1 by (rule find_update_first_found)
    have nc: "no_conflict (map (split_path \<circ> fst) (map (map_prod id encode) ?b))"
      using match(2) check_set_None[of "map fst ?b"] by (simp add: valid_set_def b comp_def)
    have eff: "map_of d1 k = Some (encode v)"
      if "k \<noteq> ''id''" "CHR ''.'' \<notin> set k" "map_of kvs k = Some v" for k v
    proof -
      have "map_of ?b k = Some v" using that by (simp add: map_of_delete_id)
      then have "(k, v) \<in> set ?b" by (rule map_of_SomeD)
      then have "(k, encode v) \<in> set (map (map_prod id encode) ?b)" by force
      then show ?thesis
        using apply_sets_plain[OF match(4)[unfolded b] nc _ that(2)] by simp
    qed
    show ?thesis
      using assms match(5) match(3) fr_all found eff
      by (simp add: updateUser_def sent_def)
  qed
qed

theorem updateUser_partial_witness:
  "ObjectIDFromHex id_ann = Inr oid_ann
   \<and> (case updateUser world_addr (''/users/'' @ id_ann) (Inr (Some body_mixed)) of
         (r, w1) \<Rightarrow>
           status r = StatusOK
           \<and> users world_addr = [doc_addr] \<and> users w1 = [doc_mixed]
           \<and> list_all2 (frame oid_ann body_mixed) (users world_addr) (users w1)
           \<and> (status r = StatusOK \<longrightarrow>
                (\<forall>d. find (has_id oid_ann) (users world_addr) = Some d \<longrightarrow>
                   (\<exists>d1. find (has_id oid_ann) (users w1) = Some d1
                      \<and> (\<forall>k v. k \<noteq> ''id'' \<longrightarrow> CHR ''.'' \<notin> set k
                            \<longrightarrow> map_of body_mixed k = Some v
                            \<longrightarrow> map_of d1 k = Some (encode v))))))"
proof -
  have h1: "ObjectIDFromHex id_ann = Inr oid_ann"
    by (rule ObjectIDFromHex_id_ann)
  have h2: "users world_addr = [doc_addr]"
    by (simp add: world_addr_def world_empty_def)
  from updateUser_partial [OF h1, where w = world_addr and kvs = body_mixed] h1 h2
  show ?thesis
    by (simp add: update_mixed [simplified] writeJSON_def)
qed

section \<open>The connection manager\<close>

text \<open>
  C9. \<open>Connect\<close> is idempotent: after one successful call, every later call, with any URI
  and database name, returns the same cached instance and leaves the process state as it
  is, so that no new connection is established.
\<close>

theorem Connect_idempotent:
  assumes "Connect uri dbName s = (Inr mc, s1)"
  shows "Connect uri' dbName' s1 = (Inr mc, s1)
       \<and> Connect_calls args s1 = (replicate (length args) (Inr mc), s1)"
proof -
  have cached: "clientInstance s1 = Some mc"
    using assms
    by (auto simp: Connect_def Let_def split: option.splits dial_result.splits)
  then have one: "Connect u d s1 = (Inr mc, s1)" for u d
    by (simp add: Connect_def)
  have "Connect_calls args s1 = (replicate (length args) (Inr mc), s1)"
  proof (induction args)
    case Nil
    show ?case by simp
  next
    case (Cons a args)
    then show ?case by (cases a) (simp add: one)
  qed
  with one show ?thesis by simp
qed

theorem Connect_idempotent_witness:
  "Connect ''mongodb://localhost:27017'' ''test_database'' process0 = (Inr 0, process1)
   \<and> Connect ''mongodb://db.example:27017'' ''other'' process1 = (Inr 0, process1)
   \<and> Connect_calls [(''mongodb://db.example:27017'', ''other''),
                     (''mongodb://localhost:27017'', ''test_database'')] process1
       = (replicate (length [(''mongodb://db.example:27017'', ''other''),
                             (''mongodb://localhost:27017'', ''test_database'')]) (Inr 0),
          process1)"
proof -
  have h: "Connect ''mongodb://localhost:27017'' ''test_database'' process0 = (Inr 0, process1)"
    by (simp add: Connect_def process0_def process1_def handle1_def net_local_def)
  from Connect_idempotent [OF h] h show ?thesis
    by blast
qed

text \<open>
  C10, as stated: \<open>Disconnect\<close> on a connection that is already closed is a no-op that
  returns no error. It fails: the handle keeps its client after the first \<open>Disconnect\<close>,
  so the second call asks the driver to disconnect the closed client and returns the
  driver's error.
\<close>

theorem Disconnect_twice_counterexample:
  "Disconnect handle1 process1 = (None, process2)
   \<and> clients process2 ! 0 = Disconnected
   \<and> Disconnect handle1 process2 =
       (Some (Wrapped ''failed to disconnect from MongoDB: '' ErrClientDisconnected), process2)"
  by (simp add: Disconnect_def client_Disconnect_def handle1_def process1_def process2_def)

text \<open>
  C10, amended: \<open>Disconnect\<close> on a handle whose client is connected closes that client
  and, when the driver reports no error, clears the singleton and returns no error;
  \<open>Disconnect\<close> on a handle that holds no client is a no-op that returns no error.
\<close>

theorem Disconnect_closes_or_noop:
  "(Client mc = None \<longrightarrow> Disconnect mc s = (None, s))
   \<and> (\<forall>c. Client mc = Some c \<and> c < length (clients s) \<and> clients s ! c = Connected
            \<and> closes s \<longrightarrow>
          (case Disconnect mc s of
             (err, s1) \<Rightarrow> err = None \<and> clients s1 ! c = Disconnected
                          \<and> clientInstance s1 = None))"
  by (auto simp: Disconnect_def client_Disconnect_def)

theorem Disconnect_closes_or_noop_witness:
  "Client handle_nil = None \<and> Disconnect handle_nil process1 = (None, process1)
   \<and> Client handle1 = Some 0 \<and> 0 < length (clients process1)
   \<and> clients process1 ! 0 = Connected \<and> closes process1
   \<and> (case Disconnect handle1 process1 of
         (err, s1) \<Rightarrow> err = None \<and> clients s1 ! 0 = Disconnected \<and> clientInstance s1 = None)"
proof -
  have h1: "Client handle_nil = None"
    by (simp add: handle_nil_def)
  have h2: "Client handle1 = Some 0 \<and> 0 < length (clients process1)
      \<and> clients process1 ! 0 = Connected \<and> closes process1"
    by (simp add: handle1_def process1_def)
  have a: "Disconnect handle_nil process1 = (None, process1)"
    using Disconnect_closes_or_noop [of handle_nil process1] h1 by (elim conjE impE)
  have "\<forall>c. Client handle1 = Some c \<and> c < length (clients process1)
            \<and> clients process1 ! c = Connected \<and> closes process1 \<longrightarrow>
          (case Disconnect handle1 process1 of
             (err, s1) \<Rightarrow> err = None \<and> clients s1 ! c = Disconnected
                          \<and> clientInstance s1 = None)"
    using Disconnect_closes_or_noop [of handle1 process1] by (elim conjE)
  then have b: "case Disconnect handle1 process1 of
             (err, s1) \<Rightarrow> err = None \<and> clients s1 ! 0 = Disconnected
                          \<and> clientInstance s1 = None"
    using h2 by (elim allE [of _ 0] impE)
  from a b h1 h2 show ?thesis
    by (intro conjI) (elim conjE, assumption)+
qed

section \<open>The age of a returned document\<close>

text \<open>
  C5 says that get and list return \<^verbatim>\<open>age\<close> as a plain integer whatever the numeric
  storage width. At a document whose age is stored as a 64-bit integer they do not: the
  driver decodes it as an \<^verbatim>\<open>int64\<close>, the handlers test for \<^verbatim>\<open>int32\<close>, \<^verbatim>\<open>int\<close> and
  \<^verbatim>\<open>float64\<close>, and the response has no \<^verbatim>\<open>age\<close>. Such a document comes from
  \<^verbatim>\<open>POST /users\<close> itself, with an age beyond 32 bits.
\<close>

theorem int64_age_dropped:
  "createUser world_empty (Inr user_big) =
     (writeJSON StatusCreated (MapStringString [(''id'', id_ann)]), world_big)
   \<and> map_of (hd (users world_big)) ''age'' = Some (BInt64 3000000000)
   \<and> status (fst (getUser world_big (''/users/'' @ id_ann))) = StatusOK
   \<and> (case body (fst (getUser world_big (''/users/'' @ id_ann))) of
         JsonObject m \<Rightarrow> m ''name'' = Some (GString ''Bob'') \<and> m ''age'' = None
       | _ \<Rightarrow> False)
   \<and> (case body (fst (listUsers world_big)) of
         JsonArray [m] \<Rightarrow> m ''name'' = Some (GString ''Bob'') \<and> m ''age'' = None
       | _ \<Rightarrow> False)"
proof -
  have a: "map_of (hd (users world_big)) ''age'' = Some (BInt64 3000000000)"
    by (simp add: world_big_def doc_big_def)
  have b: "getUser_resp 3600 (\<lambda>k. map_option decode (map_of (rev doc_big) k)) ''age'' = None"
    "getUser_resp 3600 (\<lambda>k. map_option decode (map_of (rev doc_big) k)) ''name'' = Some (GString ''Bob'')"
    by (simp_all add: getUser_resp_def put_age_def put_created_at_def put_string_def doc_big_def Let_def)
  have c: "listUsers world_big =
      (writeJSON StatusOK (SliceMapStringAny (Some [listUsers_item 3600 (\<lambda>k. map_option decode (map_of (rev doc_big) k))])),
       sent CallFind world_big)"
    by (simp add: listUsers_def Find_def sent_def Let_def world_big_def world_empty_def Decode_def
        append_slice_def)
  have d: "listUsers_item 3600 (\<lambda>k. map_option decode (map_of (rev doc_big) k)) ''age'' = None"
    "listUsers_item 3600 (\<lambda>k. map_option decode (map_of (rev doc_big) k)) ''name'' = Some (GString ''Bob'')"
    by (simp_all add: listUsers_item_def put_age_def put_created_at_def put_string_def doc_big_def Let_def)
  show ?thesis
    using a b d
    by (simp add: create_big getUser_big [simplified] c writeJSON_def json_Encode_def)
qed

section \<open>Listing the collection\<close>

text \<open>
  C7 says that \<^verbatim>\<open>GET /users\<close> on the empty collection returns an empty JSON array. The
  slice \<^verbatim>\<open>out\<close> is declared without a value and nothing is appended to it, so it is the
  nil slice, which \<^verbatim>\<open>encoding/json\<close> writes as \<^verbatim>\<open>null\<close>: the body is \<^verbatim>\<open>null\<close>, with
  status 200.
\<close>

theorem listUsers_empty_null:
  "listUsers world_empty =
     (\<lparr>status = StatusOK, content_type = ''application/json'', body = JsonNull\<rparr>,
      sent CallFind world_empty)"
  by (simp add: listUsers_def Find_def sent_def Let_def world_empty_def writeJSON_def json_Encode_def)

section \<open>The creation time in responses\<close>

text \<open>
  C2, as stated: whatever the stored representation of \<^verbatim>\<open>created_at\<close>, the response
  carries a valid RFC 3339 UTC string. It fails at a stored value of another kind: the
  handlers pass it through as it is, so a document whose \<^verbatim>\<open>created_at\<close> is the string
  \<^verbatim>\<open>yesterday\<close> is returned with that string.
\<close>

theorem created_at_text_counterexample:
  "getUser world_text (''/users/'' @ id_ann) =
     (writeJSON StatusOK
        (MapStringAny [''id'' \<mapsto> GString id_ann, ''created_at'' \<mapsto> GString ''yesterday'']),
      sent (CallFindOne oid_ann) world_text)
   \<and> \<not> valid_rfc3339_utc ''yesterday''"
proof -
  have a: "getUser_resp 3600 (\<lambda>k. map_option decode (map_of (rev doc_text) k))
      = [''id'' \<mapsto> GString id_ann, ''created_at'' \<mapsto> GString ''yesterday'']"
    by (simp add: getUser_resp_def put_string_def put_age_def put_created_at_def
        created_at_value_def doc_text_def Let_def Hex_oid_ann)
  have "getUser world_text (''/users/'' @ id_ann) =
     (writeJSON StatusOK (MapStringAny (getUser_resp 3600 (\<lambda>k. map_option decode (map_of (rev doc_text) k)))),
      sent (CallFindOne oid_ann) world_text)"
    by (simp add: getUser_def ObjectIDFromHex_id_ann FindOne_def sent_def Let_def world_text_def
        world_empty_def has_id_def doc_text_def Decode_def)
  then show ?thesis
    by (simp add: a valid_rfc3339_utc_def)
qed

text \<open>
  C2, amended: in the objects built by \<^verbatim>\<open>getUser\<close> and \<^verbatim>\<open>listUsers\<close> from a decoded
  document that has \<^verbatim>\<open>created_at\<close>, the field is the value of \<^verbatim>\<open>created_at_value\<close>: a
  valid RFC 3339 UTC string for a native datetime or a time value whose instant lies in the
  years 0000 to 9999, and for a \<^verbatim>\<open>map[string]any\<close> whose \<^verbatim>\<open>$date\<close> is a string that
  parses as RFC 3339 to such an instant; the \<^verbatim>\<open>$date\<close> string itself when it does not
  parse; and the stored value, unchanged, for every other value that is not an embedded
  document.
\<close>

theorem created_at_normalized:
  assumes "raw ''created_at'' = Some cat"
  shows "getUser_resp loc raw ''created_at'' = Some (created_at_value loc cat)
       \<and> listUsers_item loc raw ''created_at'' = Some (created_at_value loc cat)
       \<and> (\<forall>d. cat = GDateTime d \<and> in_rfc3339_range (DateTime_Time loc d) \<longrightarrow>
              (\<exists>s. created_at_value loc cat = GString s \<and> valid_rfc3339_utc s))
       \<and> (\<forall>t. cat = GTime t \<and> in_rfc3339_range t \<longrightarrow>
              (\<exists>s. created_at_value loc cat = GString s \<and> valid_rfc3339_utc s))
       \<and> (\<forall>kvs s t. cat = GMapAny kvs \<and> map_of kvs ''$date'' = Some (GString s)
                \<and> parse_RFC3339 s = Inr t \<and> in_rfc3339_range t \<longrightarrow>
              (\<exists>s1. created_at_value loc cat = GString s1 \<and> valid_rfc3339_utc s1))
       \<and> (\<forall>kvs s err. cat = GMapAny kvs \<and> map_of kvs ''$date'' = Some (GString s)
                \<and> parse_RFC3339 s = Inl err \<longrightarrow>
              created_at_value loc cat = GString s)
       \<and> ((\<forall>d. cat \<noteq> GDateTime d) \<and> (\<forall>t. cat \<noteq> GTime t) \<and> (\<forall>kvs. cat \<noteq> GPrimM kvs)
            \<and> (\<forall>kvs s. cat = GMapAny kvs \<longrightarrow> map_of kvs ''$date'' \<noteq> Some (GString s)) \<longrightarrow>
              created_at_value loc cat = cat)"
proof (intro conjI allI impI)
  show "getUser_resp loc raw ''created_at'' = Some (created_at_value loc cat)"
    using resp_created_at[where raw = raw and cat = cat and loc = loc] assms by simp
  show "listUsers_item loc raw ''created_at'' = Some (created_at_value loc cat)"
    using resp_created_at[where raw = raw and cat = cat and loc = loc] assms by simp
next
  fix d
  assume "cat = GDateTime d \<and> in_rfc3339_range (DateTime_Time loc d)"
  then show "\<exists>s. created_at_value loc cat = GString s \<and> valid_rfc3339_utc s"
    by (simp add: created_at_value_def Format_UTC_valid)
next
  fix t
  assume "cat = GTime t \<and> in_rfc3339_range t"
  then show "\<exists>s. created_at_value loc cat = GString s \<and> valid_rfc3339_utc s"
    by (simp add: created_at_value_def Format_UTC_valid)
next
  fix kvs s t
  assume "cat = GMapAny kvs \<and> map_of kvs ''$date'' = Some (GString s)
      \<and> parse_RFC3339 s = Inr t \<and> in_rfc3339_range t"
  then show "\<exists>s1. created_at_value loc cat = GString s1 \<and> valid_rfc3339_utc s1"
    by (simp add: created_at_value_def Format_UTC_valid)
next
  fix kvs s err
  assume "cat = GMapAny kvs \<and> map_of kvs ''$date'' = Some (GString s) \<and> parse_RFC3339 s = Inl err"
  then show "created_at_value loc cat = GString s"
    by (simp add: created_at_value_def)
next
  assume a: "(\<forall>d. cat \<noteq> GDateTime d) \<and> (\<forall>t. cat \<noteq> GTime t) \<and> (\<forall>kvs. cat \<noteq> GPrimM kvs)
      \<and> (\<forall>kvs s. cat = GMapAny kvs \<longrightarrow> map_of kvs ''$date'' \<noteq> Some (GString s))"
  show "created_at_value loc cat = cat"
  proof (cases cat)
    case (GMapAny kvs)
    then show ?thesis using a
      by (auto simp: created_at_value_def split: option.splits gval.splits)
  qed (use a in \<open>simp_all add: created_at_value_def\<close>)
qed

theorem created_at_normalized_witness:
  "raw_ann ''created_at'' = Some (GDateTime 1714979289123)
   \<and> in_rfc3339_range (DateTime_Time 3600 1714979289123)
   \<and> getUser_resp 3600 raw_ann ''created_at'' = Some (created_at_value 3600 (GDateTime 1714979289123))
   \<and> listUsers_item 3600 raw_ann ''created_at'' = Some (created_at_value 3600 (GDateTime 1714979289123))
   \<and> (\<exists>s. created_at_value 3600 (GDateTime 1714979289123) = GString s \<and> valid_rfc3339_utc s)"
proof -
  have h1: "raw_ann ''created_at'' = Some (GDateTime 1714979289123)"
    by (simp add: raw_ann_def)
  have h2: "in_rfc3339_range (DateTime_Time 3600 1714979289123)"
    by (simp add: in_rfc3339_range_def DateTime_Time_unix)
  from created_at_normalized [where raw = raw_ann and cat = "GDateTime 1714979289123" and loc = 3600] h1 h2 show ?thesis
    by blast
qed

end
